theory Spec2Isabelle
  imports Complex_Main "HOL-Library.Word" "HOL-Library.Multiset"
begin

section \<open>Geometry: points, directions and rays\<close>

text \<open>
  The program computes with \<^verbatim>\<open>float64\<close>. The embedding reads every \<^verbatim>\<open>float64\<close> as a
  real number and every arithmetic operation as the exact one (\<^verbatim>\<open>math.Sqrt\<close> is
  \<open>sqrt\<close>, \<^verbatim>\<open>math.Cos\<close> is \<open>cos\<close>): rounding is not modelled. Division is HOL's total
  division, which agrees with the program wherever the divisor is not zero; the theorems
  carry the hypotheses that keep every divisor away from zero (a ray has a non-zero
  direction, a sphere that is hit has a non-zero radius, a colour has a non-zero alpha).

  For a quantity that varies continuously (a coordinate, a distance, a sum of weights) the
  exact value and the \<^verbatim>\<open>float64\<close> the program holds differ by the rounding error. A
  discrete result that is read off such a quantity can differ outright: whether a
  comparison of two nearly equal numbers holds, how often a loop with a \<^verbatim>\<open>float64\<close>
  counter runs, which byte a truncation yields. On ordinary inputs this affects three
  places of the model, marked where they are defined: the branch of \<open>fanBasis\<close>, the
  number of rings of \<open>radiusLoop\<close>, and the bytes that \<open>getColor\<close> makes of the sums. (The comparisons of
  \<open>intersect\<close> and of the search for the nearest hit are of the same kind, but go the other
  way only for a ray that touches a sphere or for two hits at the same distance.) The
  theorems below state neither the rings nor the pair of vectors of the program, and a
  byte computed from the sums only where the exact value is far from an integer.

  A method is named after its receiver where Go overloads the name: \<^verbatim>\<open>direction.scale\<close>
  is \<open>direction_scale\<close>, \<^verbatim>\<open>ray.scale\<close> is \<open>ray_scale\<close>, \<^verbatim>\<open>point.to\<close> is \<open>point_to\<close>;
  \<^verbatim>\<open>norm\<close> and \<^verbatim>\<open>normalize\<close> are \<open>norm_dir\<close> and \<open>normalize_dir\<close>.
\<close>

record point =
  x :: real
  y :: real
  z :: real

record direction =
  dx :: real
  dy :: real
  dz :: real

definition tolerance :: real where
  "tolerance = 0.001"

definition direction_scale :: "direction \<Rightarrow> real \<Rightarrow> direction" where
  "direction_scale d factor = \<lparr>dx = factor * dx d, dy = factor * dy d, dz = factor * dz d\<rparr>"

definition direction_flip :: "direction \<Rightarrow> direction" where
  "direction_flip d = direction_scale d (-1)"

definition direction_add :: "direction \<Rightarrow> direction \<Rightarrow> direction" where
  "direction_add d d2 = \<lparr>dx = dx d + dx d2, dy = dy d + dy d2, dz = dz d + dz d2\<rparr>"

definition point_to :: "point \<Rightarrow> point \<Rightarrow> direction" where
  "point_to p other = \<lparr>dx = x other - x p, dy = y other - y p, dz = z other - z p\<rparr>"

definition norm2 :: "direction \<Rightarrow> real" where
  "norm2 d = dx d * dx d + dy d * dy d + dz d * dz d"

definition norm_dir :: "direction \<Rightarrow> real" where
  "norm_dir d = sqrt (norm2 d)"

definition normalize_dir :: "direction \<Rightarrow> direction" where
  "normalize_dir d = (let n = norm_dir d in \<lparr>dx = dx d / n, dy = dy d / n, dz = dz d / n\<rparr>)"

definition dot :: "direction \<Rightarrow> direction \<Rightarrow> real" where
  "dot d1 d2 = dx d1 * dx d2 + dy d1 * dy d2 + dz d1 * dz d2"

definition rotateAround :: "direction \<Rightarrow> direction \<Rightarrow> direction" where
  "rotateAround v normal0 =
     (let normal = normalize_dir normal0;
          dotprod = dx normal * dx v + dy normal * dy v + dz normal * dz v;
          diff = \<lparr>dx = dx v - dotprod * dx normal, dy = dy v - dotprod * dy normal,
                  dz = dz v - dotprod * dz normal\<rparr>;
          rot = \<lparr>dx = dx v - 2 * dx diff, dy = dy v - 2 * dy diff, dz = dz v - 2 * dz diff\<rparr>
      in rot)"

record ray =
  src :: point
  dir :: direction

definition ray_scale :: "ray \<Rightarrow> real \<Rightarrow> point" where
  "ray_scale r factor =
     \<lparr>x = x (src r) + factor * dx (dir r),
      y = y (src r) + factor * dy (dir r),
      z = z (src r) + factor * dz (dir r)\<rparr>"

definition getRay :: "point \<Rightarrow> point \<Rightarrow> ray" where
  "getRay s dst = \<lparr>src = s, dir = point_to s dst\<rparr>"

definition ray_flip :: "ray \<Rightarrow> ray" where
  "ray_flip r = getRay (src r) (ray_scale r (-1))"

definition shiftBy :: "ray \<Rightarrow> direction \<Rightarrow> ray" where
  "shiftBy r d = \<lparr>src = src r, dir = direction_add (dir r) d\<rparr>"


section \<open>Colours\<close>

text \<open>
  The scene's colours are \<^verbatim>\<open>color.RGBA\<close> values of Go's \<^verbatim>\<open>image/color\<close>: four
  8-bit channels. Their \<^verbatim>\<open>RGBA()\<close> method widens each channel \<open>c\<close> to 16 bits as
  \<^verbatim>\<open>c |= c << 8\<close>, which on a value below 256 is \<open>257 * c\<close>.
\<close>

record rgba =
  cR :: "8 word"
  cG :: "8 word"
  cB :: "8 word"
  cA :: "8 word"

definition RGBA :: "rgba \<Rightarrow> nat \<times> nat \<times> nat \<times> nat" where
  "RGBA c = (257 * unat (cR c), 257 * unat (cG c), 257 * unat (cB c), 257 * unat (cA c))"

text \<open>
  The conversion \<^verbatim>\<open>uint8(f)\<close> of a \<^verbatim>\<open>float64\<close> discards the fraction. Go fixes the result
  only where the truncated value lies in \<open>0..255\<close>; outside, the model reduces modulo 256.
\<close>

definition truncation :: "real \<Rightarrow> int" where
  "truncation f = (if 0 \<le> f then \<lfloor>f\<rfloor> else \<lceil>f\<rceil>)"

definition uint8 :: "real \<Rightarrow> 8 word" where
  "uint8 f = word_of_int (truncation f)"

section \<open>Materials and spheres\<close>

record material =
  luminous :: bool
  color :: rgba
  roughness :: real

record ball =
  center :: point
  radius :: real
  mat :: material

definition intersect :: "ball \<Rightarrow> ray \<Rightarrow> point option" where
  "intersect b r =
     (let xx = x (src r) - x (center b);
          yy = y (src r) - y (center b);
          zz = z (src r) - z (center b);
          dx = dx (dir r);
          dy = dy (dir r);
          dz = dz (dir r);
          aa = dx * dx + dy * dy + dz * dz;
          bb = 2 * (xx * dx + yy * dy + zz * dz);
          cc = xx * xx + yy * yy + zz * zz - radius b * radius b;
          radical = bb * bb - 4 * aa * cc
      in if radical < 0 then None
         else let factor = (- bb - sqrt radical) / (2 * aa)
              in if factor < tolerance then None
                 else Some (ray_scale r factor))"

text \<open>
  The two unit vectors that \<^verbatim>\<open>reflect\<close> builds orthogonal to the reflected direction:
  two candidates chosen by the first non-zero component, the first normalised, the second
  made orthogonal to the first and normalised.

  The tests \<^verbatim>\<open>outgoingDir.dx != 0\<close> and \<^verbatim>\<open>outgoingDir.dy != 0\<close> are made here on the exact
  components. The program makes them on the rounded ones: a component that is exactly 0
  can be a \<^verbatim>\<open>float64\<close> of the order of \<open>10\<^sup>-\<^sup>1\<^sup>4\<close> there, and the program then takes a branch
  that the model does not take, and builds another pair of vectors. Which pair the program
  builds for a given hit is therefore not read off this definition.
\<close>

definition fanBasis :: "direction \<Rightarrow> direction \<times> direction" where
  "fanBasis outgoingDir =
     (let (n1dir, n2dirTemp) =
            (if dx outgoingDir \<noteq> 0 then
               (\<lparr>dx = - (dy outgoingDir + dz outgoingDir) / dx outgoingDir, dy = 1, dz = 1\<rparr>,
                \<lparr>dx = - (dy outgoingDir + 2 * dz outgoingDir) / dx outgoingDir, dy = 1, dz = 2\<rparr>)
             else if dy outgoingDir \<noteq> 0 then
               (\<lparr>dx = 1, dy = - (dx outgoingDir + dz outgoingDir) / dy outgoingDir, dz = 1\<rparr>,
                \<lparr>dx = 2, dy = - (2 * dx outgoingDir + dz outgoingDir) / dy outgoingDir, dz = 1\<rparr>)
             else
               (\<lparr>dx = 1, dy = 1, dz = - (dx outgoingDir + dy outgoingDir) / dz outgoingDir\<rparr>,
                \<lparr>dx = 1, dy = 2, dz = - (dx outgoingDir + 2 * dy outgoingDir) / dz outgoingDir\<rparr>));
          n1dir = normalize_dir n1dir;
          parallelComp = dot n1dir n2dirTemp;
          n2dir = \<lparr>dx = dx n2dirTemp - parallelComp * dx n1dir,
                   dy = dy n2dirTemp - parallelComp * dy n1dir,
                   dz = dz n2dirTemp - parallelComp * dz n1dir\<rparr>;
          n2dir = normalize_dir n2dir
      in (n1dir, n2dir))"

text \<open>The inner loop: \<^verbatim>\<open>for angle := 0; angle < 360; angle += 5\<close>.\<close>

function angleLoop ::
  "point \<Rightarrow> direction \<Rightarrow> direction \<Rightarrow> direction \<Rightarrow> real \<Rightarrow> int \<Rightarrow>
   ray list \<times> real list \<Rightarrow> ray list \<times> real list" where
  "angleLoop intersection outgoingDir n1dir n2dir rad angle (outgoing, weights) =
     (if angle < 360 then
        let radians = real_of_int angle * (pi / 180);
            n1s = cos radians;
            n2s = sin radians;
            shiftDir = \<lparr>dx = (rad * norm_dir outgoingDir) * (n1s * dx n1dir + n2s * dx n2dir),
                        dy = (rad * norm_dir outgoingDir) * (n1s * dy n1dir + n2s * dy n2dir),
                        dz = (rad * norm_dir outgoingDir) * (n1s * dz n1dir + n2s * dz n2dir)\<rparr>;
            newDir = \<lparr>dx = dx outgoingDir + dx shiftDir,
                      dy = dy outgoingDir + dy shiftDir,
                      dz = dz outgoingDir + dz shiftDir\<rparr>
        in angleLoop intersection outgoingDir n1dir n2dir rad (angle + 5)
             (outgoing @ [\<lparr>src = intersection, dir = newDir\<rparr>], weights @ [1 / 72])
      else (outgoing, weights))"
  by pat_completeness auto
termination
  by (relation "measure (\<lambda>(p, d, n1, n2, rad, angle, acc). nat (360 - angle))") auto

declare angleLoop.simps [simp del]

text \<open>
  The outer loop: \<^verbatim>\<open>for radius := 0.01; radius <= 5*b.mat.roughness; radius += 0.05\<close>.

  The counter is exact here, so that the loop runs for the radii \<open>0.01 + 0.05 \<cdot> k\<close> that are
  at most the bound. In the program the counter is a \<^verbatim>\<open>float64\<close> to which the rounded
  \<open>0.05\<close> is added again and again; when the bound is one of the radii, or close to one,
  the last comparison can go the other way (with roughness \<open>0.012\<close> the sum
  \<^verbatim>\<open>0.01 + 0.05\<close> is \<^verbatim>\<open>0.060000000000000005\<close>, above \<^verbatim>\<open>5 * 0.012\<close>, and the program
  makes one ring where the model makes two). The number of rings of the program is
  therefore not read off this definition; what the theorems use of the loop is that every
  ring adds 72 rays from the hit point, each of weight \<open>1/72\<close>.
\<close>

function radiusLoop ::
  "point \<Rightarrow> direction \<Rightarrow> direction \<Rightarrow> direction \<Rightarrow> real \<Rightarrow> real \<Rightarrow>
   ray list \<times> real list \<Rightarrow> ray list \<times> real list" where
  "radiusLoop intersection outgoingDir n1dir n2dir bound rad acc =
     (if rad \<le> bound then
        radiusLoop intersection outgoingDir n1dir n2dir bound (rad + 0.05)
          (angleLoop intersection outgoingDir n1dir n2dir rad 0 acc)
      else acc)"
  by pat_completeness auto
termination
proof (relation "measure (\<lambda>(p, d, n1, n2, bound, rad, acc). nat (\<lfloor>(bound - rad) * 20\<rfloor> + 1))")
  show "wf (measure (\<lambda>(p, d, n1, n2, bound, rad, acc). nat (\<lfloor>(bound - rad) * 20\<rfloor> + 1)))"
    by simp
next
  fix outgoingDir n1dir n2dir :: direction and p :: point
    and bound rad :: real and acc :: "ray list \<times> real list"
  assume le: "rad \<le> bound"
  define a where "a = (bound - rad) * 20"
  have "(bound - (rad + 0.05)) * 20 = a - 1"
    by (simp add: a_def algebra_simps)
  then have step: "\<lfloor>(bound - (rad + 0.05)) * 20\<rfloor> = \<lfloor>a\<rfloor> - 1"
    by (simp only: floor_diff_one)
  from le have "0 \<le> a"
    by (simp add: a_def)
  then have "0 \<le> \<lfloor>a\<rfloor>"
    by simp
  then have "nat (\<lfloor>a\<rfloor> - 1 + 1) < nat (\<lfloor>a\<rfloor> + 1)"
    by simp
  with step show
    "((p, outgoingDir, n1dir, n2dir, bound, rad + 0.05,
       angleLoop p outgoingDir n1dir n2dir rad 0 acc),
      (p, outgoingDir, n1dir, n2dir, bound, rad, acc))
     \<in> measure (\<lambda>(p, d, n1, n2, bound, rad, acc). nat (\<lfloor>(bound - rad) * 20\<rfloor> + 1))"
    by (simp only: in_measure prod.case a_def)
qed

declare radiusLoop.simps [simp del]

text \<open>
  \<^verbatim>\<open>reflect\<close> has a pointer receiver and assigns \<^verbatim>\<open>b.mat.roughness = 1\<close> when the
  roughness exceeds 1, so the model returns the sphere as the call leaves it.
\<close>

definition reflect :: "ball \<Rightarrow> ray \<Rightarrow> point \<Rightarrow> (ray list \<times> real list \<times> rgba) \<times> ball" where
  "reflect b r intersection =
     (let outgoing = []; weights = [] in
      if \<not> luminous (mat b) then
        let normal = ray_flip (getRay intersection (center b));
            outgoingDir = rotateAround (dir (ray_flip r)) (dir normal);
            outgoingRay = \<lparr>src = intersection, dir = outgoingDir\<rparr>;
            outgoing = outgoing @ [outgoingRay];
            weights = weights @ [1]
        in if roughness (mat b) > 0 then
             let b = (if roughness (mat b) > 1 then b\<lparr>mat := (mat b)\<lparr>roughness := 1\<rparr>\<rparr> else b);
                 (n1dir, n2dir) = fanBasis outgoingDir;
                 (outgoing, weights) =
                   radiusLoop intersection outgoingDir n1dir n2dir (5 * roughness (mat b)) 0.01
                     (outgoing, weights)
             in ((outgoing, weights, color (mat b)), b)
           else ((outgoing, weights, color (mat b)), b)
      else ((outgoing, weights, color (mat b)), b))"

section \<open>The scene and the shading recursion\<close>

text \<open>
  The only implementation of the interface \<^verbatim>\<open>object\<close> is \<^verbatim>\<open>*ball\<close>, so a scene holds a
  list of spheres. The pointers in \<^verbatim>\<open>s.objects\<close> are taken to point to distinct spheres,
  as they do in \<^verbatim>\<open>main\<close>.
\<close>

record scene =
  objects :: "ball list"
  background :: rgba

text \<open>
  The scan of \<^verbatim>\<open>getColor\<close> over \<^verbatim>\<open>s.objects\<close>, with its three variables
  \<^verbatim>\<open>minDist\<close>, \<^verbatim>\<open>minI\<close> and \<^verbatim>\<open>ipnt\<close>; \<open>i\<close> is the index of the head of the list.
\<close>

fun scanObjects :: "ball list \<Rightarrow> ray \<Rightarrow> nat \<Rightarrow> real \<times> int \<times> point \<Rightarrow> real \<times> int \<times> point" where
  "scanObjects [] r i (minDist, minI, ipnt) = (minDist, minI, ipnt)"
| "scanObjects (ob # obs) r i (minDist, minI, ipnt) =
     (case intersect ob r of
        Some intersection \<Rightarrow>
          let dist = norm_dir (point_to (src r) intersection)
          in if minDist < 0 \<or> dist < minDist
             then scanObjects obs r (i + 1) (dist, int i, intersection)
             else scanObjects obs r (i + 1) (minDist, minI, ipnt)
      | None \<Rightarrow> scanObjects obs r (i + 1) (minDist, minI, ipnt))"

definition nearestHit :: "scene \<Rightarrow> ray \<Rightarrow> real \<times> int \<times> point" where
  "nearestHit s r = scanObjects (objects s) r 0 (-1, -1, \<lparr>x = 0, y = 0, z = 0\<rparr>)"

text \<open>
  \<^verbatim>\<open>getColor\<close> calls itself with no bound on the depth, so the model takes fuel: the
  number of nested calls it may make. \<open>None\<close> says that the fuel ran out (or that
  \<^verbatim>\<open>weights[i]\<close> was read out of range, which panics). The scene is passed along and
  returned, since \<^verbatim>\<open>reflect\<close> may write to the sphere it is called on.
  \<open>accumulate\<close> is the loop over the outgoing rays with its variables \<^verbatim>\<open>totalWeight\<close>,
  \<^verbatim>\<open>finalR\<close>, \<^verbatim>\<open>finalG\<close> and \<^verbatim>\<open>finalB\<close>.

  The four sums are exact here. The program rounds after every addition, so that its sums
  differ from these by the accumulated rounding error and depend on the order of the
  additions; the bytes that \<open>getColor\<close> then truncates them to can differ from the
  truncation of the exact value where that value is an integer or close to one (a white
  fan before a white background has the exact value 255, and the program can write 254).
\<close>

fun getColor :: "nat \<Rightarrow> scene \<Rightarrow> ray \<Rightarrow> (rgba \<times> scene) option"
  and accumulate :: "nat \<Rightarrow> scene \<Rightarrow> rgba \<Rightarrow> ray list \<Rightarrow> real list \<Rightarrow>
    real \<times> real \<times> real \<times> real \<Rightarrow> ((real \<times> real \<times> real \<times> real) \<times> scene) option" where
  "getColor 0 s r = None"
| "getColor (Suc n) s r =
     (case nearestHit s r of (minDist, minI, ipnt) \<Rightarrow>
        if minI \<noteq> -1 then
          let collidesWith = objects s ! nat minI in
          case reflect collidesWith r ipnt of ((outgoing, weights, cc), collidesWith') \<Rightarrow>
            let s = s\<lparr>objects := (objects s)[nat minI := collidesWith']\<rparr> in
            if length outgoing = 0 then Some (cc, s)
            else
              (case accumulate n s cc outgoing weights (0, 0, 0, 0) of
                 None \<Rightarrow> None
               | Some ((totalWeight, finalR, finalG, finalB), s) \<Rightarrow>
                   (case RGBA cc of (r, g, b, a) \<Rightarrow>
                      let finalR = finalR / totalWeight;
                          finalG = finalG / totalWeight;
                          finalB = finalB / totalWeight
                      in Some (\<lparr>cR = uint8 (finalR / real a * 255),
                                 cG = uint8 (finalG / real a * 255),
                                 cB = uint8 (finalB / real a * 255),
                                 cA = 255\<rparr>, s)))
        else Some (background s, s))"
| "accumulate n s cc [] weights acc = Some (acc, s)"
| "accumulate n s cc (outgoingRay # outgoing) [] acc = None"
| "accumulate n s cc (outgoingRay # outgoing) (weight # weights) (totalWeight, finalR, finalG, finalB) =
     (case getColor n s outgoingRay of
        None \<Rightarrow> None
      | Some (nc, s) \<Rightarrow>
          (case RGBA cc of (r, g, b, a) \<Rightarrow>
           case RGBA nc of (nr, ng, nb, na) \<Rightarrow>
             accumulate n s cc outgoing weights
               (totalWeight + weight,
                finalR + real nr / real na * real r * weight,
                finalG + real ng / real na * real g * weight,
                finalB + real nb / real na * real b * weight)))"

text \<open>The scene that \<^verbatim>\<open>main\<close> builds.\<close>

definition greenBall :: ball where
  "greenBall = \<lparr>center = \<lparr>x = -10, y = 0, z = 50\<rparr>, radius = 1,
     mat = \<lparr>luminous = False, color = \<lparr>cR = 0, cG = 255, cB = 0, cA = 255\<rparr>, roughness = 1\<rparr>\<rparr>"

definition whiteBall :: ball where
  "whiteBall = \<lparr>center = \<lparr>x = 30, y = 0, z = 40\<rparr>, radius = 30,
     mat = \<lparr>luminous = True, color = \<lparr>cR = 255, cG = 255, cB = 255, cA = 255\<rparr>, roughness = 0\<rparr>\<rparr>"

definition mainScene :: scene where
  "mainScene = \<lparr>objects = [greenBall, whiteBall],
     background = \<lparr>cR = 32, cG = 32, cB = 32, cA = 255\<rparr>\<rparr>"

text \<open>The ray that \<^verbatim>\<open>render\<close> casts through the pixel in row \<open>r\<close> and column \<open>c\<close>.\<close>

definition cameraRay :: "int \<Rightarrow> int \<Rightarrow> ray" where
  "cameraRay r c =
     (let origin = \<lparr>x = 0, y = 0, z = 0\<rparr>;
          width = 2000;
          height = 1000;
          xMin = -0.5;
          xMax = 0.5;
          yMin = -0.25;
          yMax = 0.25;
          z = 1;
          x = xMin + real_of_int c * (xMax - xMin) / real_of_int width;
          y = yMin + real_of_int r * (yMax - yMin) / real_of_int height
      in getRay origin \<lparr>x = x, y = y, z = z\<rparr>)"

section \<open>Notions of the specification\<close>

definition zeroDir :: direction where
  "zeroDir = \<lparr>dx = 0, dy = 0, dz = 0\<rparr>"

definition distanceTo :: "point \<Rightarrow> point \<Rightarrow> real" where
  "distanceTo p q = norm_dir (point_to p q)"

text \<open>The mirror image of \<open>v\<close> about the unit normal \<open>n\<close>: \<open>v - 2 (v \<cdot> n) n\<close>.\<close>

definition mirror :: "direction \<Rightarrow> direction \<Rightarrow> direction" where
  "mirror v n = direction_add v (direction_scale n (- 2 * dot v n))"

text \<open>The unit normal of the sphere at \<open>p\<close>, pointing away from the centre.\<close>

definition outwardNormal :: "ball \<Rightarrow> point \<Rightarrow> direction" where
  "outwardNormal b p = normalize_dir (point_to (center b) p)"

text \<open>
  The quadratic \<open>a t\<^sup>2 + b t + c = 0\<close> of the specification, with
  \<open>originOffset = rayOrigin - sphereCenter\<close>.
\<close>

definition originOffset :: "ball \<Rightarrow> ray \<Rightarrow> direction" where
  "originOffset b r = point_to (center b) (src r)"

definition quadA :: "ray \<Rightarrow> real" where
  "quadA r = norm2 (dir r)"

definition quadB :: "ball \<Rightarrow> ray \<Rightarrow> real" where
  "quadB b r = 2 * dot (originOffset b r) (dir r)"

definition quadC :: "ball \<Rightarrow> ray \<Rightarrow> real" where
  "quadC b r = norm2 (originOffset b r) - (radius b)\<^sup>2"

definition discriminant :: "ball \<Rightarrow> ray \<Rightarrow> real" where
  "discriminant b r = (quadB b r)\<^sup>2 - 4 * quadA r * quadC b r"

definition smallerRoot :: "ball \<Rightarrow> ray \<Rightarrow> real" where
  "smallerRoot b r = (- quadB b r - sqrt (discriminant b r)) / (2 * quadA r)"

text \<open>
  The colour that \<^verbatim>\<open>getColor\<close> builds from the accumulated \<^verbatim>\<open>totalWeight\<close>,
  \<^verbatim>\<open>finalR\<close>, \<^verbatim>\<open>finalG\<close> and \<^verbatim>\<open>finalB\<close>, and the shading of a ray once its nearest
  hit is known to be the point \<open>p\<close> on the sphere with index \<open>i\<close>.
\<close>

definition blend :: "rgba \<Rightarrow> real \<times> real \<times> real \<times> real \<Rightarrow> rgba" where
  "blend cc acc =
     (case acc of (totalWeight, finalR, finalG, finalB) \<Rightarrow>
      case RGBA cc of (r, g, b, a) \<Rightarrow>
        \<lparr>cR = uint8 (finalR / totalWeight / real a * 255),
         cG = uint8 (finalG / totalWeight / real a * 255),
         cB = uint8 (finalB / totalWeight / real a * 255),
         cA = 255\<rparr>)"

definition shadeHit :: "nat \<Rightarrow> scene \<Rightarrow> ray \<Rightarrow> nat \<Rightarrow> point \<Rightarrow> (rgba \<times> scene) option" where
  "shadeHit n s r i p =
     (case reflect (objects s ! i) r p of ((outgoing, weights, cc), b') \<Rightarrow>
        if outgoing = [] then Some (cc, s\<lparr>objects := (objects s)[i := b']\<rparr>)
        else map_option (\<lambda>(acc, s'). (blend cc acc, s'))
               (accumulate n (s\<lparr>objects := (objects s)[i := b']\<rparr>) cc outgoing weights (0, 0, 0, 0)))"

text \<open>
  The fan of the specification. Ring \<open>j\<close> has radius \<open>0.01 + 0.05 j\<close>; the rings are those
  whose radius is at most \<open>bound\<close>; a ring holds the 72 angles \<open>0, 5, \<dots>, 355\<close> degrees.
  The direction of a fan ray is the reflected direction plus
  \<open>radius \<cdot> |reflectedDir| \<cdot> (cos angle \<cdot> n1 + sin angle \<cdot> n2)\<close>. This is the fan of the
  two loops in exact arithmetic; \<open>ringCount\<close> is the number of rings of \<open>radiusLoop\<close>, not
  the number of rings that the program makes with its \<^verbatim>\<open>float64\<close> counter.
\<close>

definition ringRadius :: "nat \<Rightarrow> real" where
  "ringRadius j = 0.01 + 0.05 * real j"

definition ringCount :: "real \<Rightarrow> nat" where
  "ringCount bound = (if 0.01 \<le> bound then nat (\<lfloor>(bound - 0.01) * 20\<rfloor> + 1) else 0)"

definition fanDirection :: "direction \<Rightarrow> direction \<Rightarrow> direction \<Rightarrow> real \<Rightarrow> real \<Rightarrow> direction" where
  "fanDirection reflectedDir n1 n2 rad degrees =
     direction_add reflectedDir
       (direction_scale
          (direction_add (direction_scale n1 (cos (degrees * (pi / 180))))
                         (direction_scale n2 (sin (degrees * (pi / 180)))))
          (rad * norm_dir reflectedDir))"

definition fanRing :: "point \<Rightarrow> direction \<Rightarrow> real \<Rightarrow> ray list" where
  "fanRing p reflectedDir rad =
     map (\<lambda>k. \<lparr>src = p,
               dir = fanDirection reflectedDir (fst (fanBasis reflectedDir))
                       (snd (fanBasis reflectedDir)) rad (5 * real k)\<rparr>) [0..<72]"

definition fanRays :: "point \<Rightarrow> direction \<Rightarrow> real \<Rightarrow> ray list" where
  "fanRays p reflectedDir bound =
     concat (map (\<lambda>j. fanRing p reflectedDir (ringRadius j)) [0..<ringCount bound])"

text \<open>The direction of the ideal reflected ray at the point \<open>p\<close> of the sphere \<open>b\<close>.\<close>

definition idealDir :: "ball \<Rightarrow> ray \<Rightarrow> point \<Rightarrow> direction" where
  "idealDir b r p = mirror (dir r) (outwardNormal b p)"

text \<open>
  What a call may change in a sphere: nothing, or the roughness of a non-luminous sphere
  from a value above 1 to 1. A scene changes by such changes of its spheres only.
\<close>

definition clamped :: "ball \<Rightarrow> ball \<Rightarrow> bool" where
  "clamped b b' \<longleftrightarrow>
     b' = b \<or> (\<not> luminous (mat b) \<and> 1 < roughness (mat b) \<and> b' = b\<lparr>mat := (mat b)\<lparr>roughness := 1\<rparr>\<rparr>)"

definition sceneClamped :: "scene \<Rightarrow> scene \<Rightarrow> bool" where
  "sceneClamped s s' \<longleftrightarrow>
     background s' = background s \<and> list_all2 clamped (objects s) (objects s')"








subsection \<open>Example inputs\<close>

definition unitBall :: ball where
  "unitBall = \<lparr>center = \<lparr>x = 0, y = 0, z = 2\<rparr>, radius = 1,
     mat = \<lparr>luminous = False, color = \<lparr>cR = 255, cG = 0, cB = 0, cA = 255\<rparr>, roughness = 0\<rparr>\<rparr>"

definition shortRay :: ray where
  "shortRay = \<lparr>src = \<lparr>x = 0, y = 0, z = 0\<rparr>, dir = \<lparr>dx = 0, dy = 0, dz = 1\<rparr>\<rparr>"

definition longRay :: ray where
  "longRay = \<lparr>src = \<lparr>x = 0, y = 0, z = 0\<rparr>, dir = \<lparr>dx = 0, dy = 0, dz = 2000\<rparr>\<rparr>"



text \<open>
  The camera ray through row 500, column 1800 has direction \<open>(0.4, 0, 1)\<close>; it misses
  the green sphere and enters the white one at \<open>brightHit\<close>.
\<close>

definition brightHit :: point where
  "brightHit = ray_scale (cameraRay 500 1800) (smallerRoot whiteBall (cameraRay 500 1800))"

text \<open>A rough sphere whose roughness exceeds 1.\<close>

definition roughBall :: ball where
  "roughBall = \<lparr>center = \<lparr>x = 0, y = 0, z = 2\<rparr>, radius = 1,
     mat = \<lparr>luminous = False, color = \<lparr>cR = 0, cG = 255, cB = 0, cA = 255\<rparr>, roughness = 2\<rparr>\<rparr>"

definition roughScene :: scene where
  "roughScene = \<lparr>objects = [roughBall], background = \<lparr>cR = 255, cG = 255, cB = 255, cA = 255\<rparr>\<rparr>"

text \<open>
  A scene with the smooth sphere \<open>unitBall\<close> alone before a white background, and the ray
  that \<open>shortRay\<close> is reflected into.
\<close>

definition smoothScene :: scene where
  "smoothScene = \<lparr>objects = [unitBall], background = \<lparr>cR = 255, cG = 255, cB = 255, cA = 255\<rparr>\<rparr>"

definition bounceRay :: ray where
  "bounceRay = \<lparr>src = \<lparr>x = 0, y = 0, z = 1\<rparr>, dir = \<lparr>dx = 0, dy = 0, dz = -1\<rparr>\<rparr>"



section \<open>Properties of the geometry\<close>

lemma norm2_nonneg: "0 \<le> norm2 d"
  by (simp add: norm2_def)

lemma norm2_pos: "d \<noteq> zeroDir \<Longrightarrow> 0 < norm2 d"
proof -
  assume "d \<noteq> zeroDir"
  then have "dx d \<noteq> 0 \<or> dy d \<noteq> 0 \<or> dz d \<noteq> 0"
    by (cases d) (auto simp: zeroDir_def)
  then show ?thesis
    unfolding norm2_def
    by (metis add_pos_nonneg add_nonneg_pos zero_le_square not_real_square_gt_zero add_nonneg_nonneg)
qed

lemma norm_dir_nonneg: "0 \<le> norm_dir d"
  by (simp add: norm_dir_def norm2_nonneg)

lemma norm_dir_sq: "(norm_dir d)\<^sup>2 = norm2 d"
  by (simp add: norm_dir_def norm2_nonneg)

lemma norm2_normalize: "0 < norm2 d \<Longrightarrow> norm2 (normalize_dir d) = 1"
proof -
  assume pos: "0 < norm2 d"
  define n where "n = sqrt (norm2 d)"
  have n0: "n \<noteq> 0" and nn: "n * n = norm2 d"
    using pos by (simp_all add: n_def)
  have "norm2 (normalize_dir d) = (dx d / n) * (dx d / n) + (dy d / n) * (dy d / n) + (dz d / n) * (dz d / n)"
    by (simp add: normalize_dir_def Let_def norm_dir_def norm2_def n_def)
  also have "\<dots> = (dx d * dx d + dy d * dy d + dz d * dz d) / (n * n)"
    by (simp add: add_divide_distrib)
  also have "\<dots> = 1"
    using pos by (simp add: nn norm2_def)
  finally show ?thesis .
qed

lemma ray_flip_eq: "ray_flip r = \<lparr>src = src r, dir = direction_flip (dir r)\<rparr>"
  by (simp add: ray_flip_def getRay_def point_to_def ray_scale_def direction_flip_def direction_scale_def)

lemma normal_dir: "direction_flip (dir (getRay p c)) = point_to c p"
  by (simp add: getRay_def direction_flip_def direction_scale_def point_to_def)

lemma rotateAround_flip:
  "rotateAround (direction_flip v) n = mirror v (normalize_dir n)"
  by (simp add: rotateAround_def Let_def mirror_def dot_def direction_flip_def direction_scale_def
      direction_add_def algebra_simps)

lemma mirror_dot: "norm2 n = 1 \<Longrightarrow> dot (mirror v n) n = - dot v n"
proof -
  assume u: "norm2 n = 1"
  have "dot (mirror v n) n = dot v n - 2 * dot v n * norm2 n"
    by (simp add: mirror_def dot_def norm2_def direction_add_def direction_scale_def algebra_simps)
  with u show ?thesis by simp
qed

lemma mirror_norm2: "norm2 n = 1 \<Longrightarrow> norm2 (mirror v n) = norm2 v"
proof -
  assume u: "norm2 n = 1"
  have "norm2 (mirror v n) = norm2 v - 4 * dot v n * dot v n + 4 * dot v n * dot v n * norm2 n"
    by (simp add: mirror_def dot_def norm2_def direction_add_def direction_scale_def algebra_simps)
  with u show ?thesis by simp
qed

lemma distance_along_ray: "0 \<le> t \<Longrightarrow> distanceTo (src r) (ray_scale r t) = t * norm_dir (dir r)"
proof -
  assume t: "0 \<le> t"
  have "norm2 (point_to (src r) (ray_scale r t)) = (t * t) * norm2 (dir r)"
    by (simp add: norm2_def point_to_def ray_scale_def algebra_simps)
  then have "distanceTo (src r) (ray_scale r t) = sqrt (t * t) * sqrt (norm2 (dir r))"
    by (simp add: distanceTo_def norm_dir_def real_sqrt_mult)
  with t show ?thesis by (simp add: norm_dir_def)
qed

text \<open>
  Claim C10, as amended. Flipping a ray keeps its origin and negates its direction: the
  flipped ray starts at the original origin and reaches, at parameter 1, the point that
  the original ray reaches at parameter \<open>-1\<close> (origin minus direction).
\<close>

theorem ray_flip_keeps_origin:
  "ray_flip r = \<lparr>src = src r, dir = direction_flip (dir r)\<rparr>
   \<and> ray_scale (ray_flip r) 1 = ray_scale r (-1)"
  by (simp add: ray_flip_eq ray_scale_def direction_flip_def direction_scale_def)

text \<open>
  Claim C10 as stated fails: the origin of the flipped ray is not the point at parameter
  \<open>-1\<close> of the original ray. For the ray from \<open>(0,0,0)\<close> with direction \<open>(0,0,1)\<close> the
  flipped ray still starts at \<open>(0,0,0)\<close>, not at \<open>(0,0,-1)\<close>.
\<close>

theorem ray_flip_origin_counterexample:
  "src (ray_flip shortRay) \<noteq> ray_scale shortRay (-1)"
  by (simp add: ray_flip_eq ray_scale_def shortRay_def)

section \<open>Ray-sphere intersection\<close>

lemma intersect_quadratic:
  "intersect b r =
     (if discriminant b r < 0 then None
      else if smallerRoot b r < tolerance then None
      else Some (ray_scale r (smallerRoot b r)))"
  by (simp add: intersect_def Let_def discriminant_def smallerRoot_def quadA_def quadB_def
      quadC_def originOffset_def point_to_def norm2_def dot_def power2_eq_square)

lemma norm2_along_ray:
  "norm2 (point_to (center b) (ray_scale r t)) - (radius b)\<^sup>2
     = quadA r * t\<^sup>2 + quadB b r * t + quadC b r"
  by (simp add: quadA_def quadB_def quadC_def originOffset_def point_to_def norm2_def dot_def
      ray_scale_def power2_eq_square algebra_simps)

lemma smallerRoot_solves:
  assumes "dir r \<noteq> zeroDir" and "0 \<le> discriminant b r"
  shows "quadA r * (smallerRoot b r)\<^sup>2 + quadB b r * smallerRoot b r + quadC b r = 0"
proof -
  have a: "quadA r \<noteq> 0" using norm2_pos[OF assms(1)] by (simp add: quadA_def)
  define s where "s = sqrt (discriminant b r)"
  have ss: "s * s = (quadB b r)\<^sup>2 - 4 * quadA r * quadC b r"
    using assms(2) by (simp add: s_def discriminant_def)
  have t: "smallerRoot b r = (- quadB b r - s) / (2 * quadA r)"
    by (simp add: smallerRoot_def s_def)
  have "4 * quadA r * (quadA r * (smallerRoot b r)\<^sup>2 + quadB b r * smallerRoot b r + quadC b r)
      = (- quadB b r - s)\<^sup>2 + 2 * quadB b r * (- quadB b r - s) + 4 * quadA r * quadC b r"
    using a by (simp add: t power2_eq_square field_simps)
  also have "\<dots> = s * s - (quadB b r)\<^sup>2 + 4 * quadA r * quadC b r"
    by (simp add: power2_eq_square algebra_simps)
  also have "\<dots> = 0"
    by (simp add: ss)
  finally show ?thesis using a by simp
qed

lemma root_ge_smallerRoot:
  assumes d: "dir r \<noteq> zeroDir"
    and q: "quadA r * t\<^sup>2 + quadB b r * t + quadC b r \<le> 0"
  shows "0 \<le> discriminant b r \<and> smallerRoot b r \<le> t"
proof -
  have a: "0 < quadA r" using norm2_pos[OF d] by (simp add: quadA_def)
  have sq: "(2 * quadA r * t + quadB b r)\<^sup>2
      = discriminant b r + 4 * quadA r * (quadA r * t\<^sup>2 + quadB b r * t + quadC b r)"
    by (simp add: discriminant_def power2_eq_square algebra_simps)
  have "4 * quadA r * (quadA r * t\<^sup>2 + quadB b r * t + quadC b r) \<le> 0"
    using a q by (simp add: mult_le_0_iff)
  with sq have le: "(2 * quadA r * t + quadB b r)\<^sup>2 \<le> discriminant b r"
    by simp
  then have disc: "0 \<le> discriminant b r"
    using zero_le_power2[of "2 * quadA r * t + quadB b r"] by linarith
  from le have "\<bar>2 * quadA r * t + quadB b r\<bar> \<le> sqrt (discriminant b r)"
    using real_le_rsqrt by (simp add: abs_le_square_iff[symmetric] real_le_rsqrt)
  then have "- quadB b r - sqrt (discriminant b r) \<le> 2 * quadA r * t"
    by linarith
  then have "smallerRoot b r \<le> t"
    using a by (simp add: smallerRoot_def field_simps)
  with disc show ?thesis by simp
qed

lemma hit_on_sphere:
  assumes "intersect b r = Some p" and "dir r \<noteq> zeroDir"
  shows "norm2 (point_to (center b) p) = (radius b)\<^sup>2"
proof -
  from assms(1) have disc: "0 \<le> discriminant b r" and p: "p = ray_scale r (smallerRoot b r)"
    by (auto simp: intersect_quadratic split: if_splits)
  from smallerRoot_solves[OF assms(2) disc] norm2_along_ray[of b r "smallerRoot b r"]
  show ?thesis by (simp add: p)
qed

lemma intersect_dir_nonzero: "intersect b r = Some p \<Longrightarrow> dir r \<noteq> zeroDir"
  by (auto simp: intersect_def Let_def zeroDir_def tolerance_def split: if_splits)

lemma intersect_outside_misses:
  assumes d: "dir r \<noteq> zeroDir"
    and far: "\<forall>t\<ge>0. \<bar>radius b\<bar> < distanceTo (center b) (ray_scale r t)"
  shows "intersect b r = None"
proof (rule ccontr)
  assume "intersect b r \<noteq> None"
  then obtain p where hit: "intersect b r = Some p" by auto
  then have t: "tolerance \<le> smallerRoot b r" and p: "p = ray_scale r (smallerRoot b r)"
    by (auto simp: intersect_quadratic split: if_splits)
  from t have "0 \<le> smallerRoot b r" by (simp add: tolerance_def)
  with far p have "\<bar>radius b\<bar> < norm_dir (point_to (center b) p)"
    by (simp add: distanceTo_def)
  moreover have "norm_dir (point_to (center b) p) = \<bar>radius b\<bar>"
    using hit_on_sphere[OF hit d] by (simp add: norm_dir_def)
  ultimately show False by simp
qed

lemma intersect_inside_misses:
  assumes d: "dir r \<noteq> zeroDir"
    and inside: "distanceTo (center b) (src r) < \<bar>radius b\<bar>"
  shows "intersect b r = None"
proof -
  have "(distanceTo (center b) (src r))\<^sup>2 < (radius b)\<^sup>2"
    using inside norm_dir_nonneg[of "point_to (center b) (src r)"]
    by (metis distanceTo_def abs_le_square_iff abs_of_nonneg not_le power2_abs)
  then have "quadC b r < 0"
    by (simp add: quadC_def originOffset_def distanceTo_def norm_dir_sq)
  then have "quadA r * 0\<^sup>2 + quadB b r * 0 + quadC b r \<le> 0"
    by simp
  from root_ge_smallerRoot[OF d this] have "smallerRoot b r < tolerance"
    by (simp add: tolerance_def)
  then show ?thesis
    by (simp add: intersect_quadratic)
qed

lemma aimed_root:
  assumes k: "0 < k" and aim: "dir r = direction_scale (point_to (src r) (center b)) k"
    and D: "D = distanceTo (src r) (center b)" and far: "\<bar>radius b\<bar> < D"
  shows "norm_dir (dir r) = k * D"
    and "0 \<le> discriminant b r"
    and "smallerRoot b r = (D - \<bar>radius b\<bar>) / (k * D)"
proof -
  have Dpos: "0 < D" using far by linarith
  have DD: "D * D = norm2 (point_to (src r) (center b))"
    using norm_dir_sq[of "point_to (src r) (center b)"] by (simp add: D distanceTo_def power2_eq_square)
  have A: "quadA r = k * k * (D * D)"
    by (simp add: quadA_def aim DD norm2_def direction_scale_def algebra_simps)
  have B: "quadB b r = - 2 * k * (D * D)"
    by (simp add: quadB_def aim DD originOffset_def dot_def norm2_def direction_scale_def
        point_to_def algebra_simps)
  have C: "quadC b r = D * D - radius b * radius b"
    by (simp add: quadC_def DD originOffset_def norm2_def point_to_def power2_eq_square algebra_simps)
  have "norm_dir (dir r) = sqrt ((k * D) * (k * D))"
    by (simp add: norm_dir_def A[unfolded quadA_def] algebra_simps)
  also have "\<dots> = k * D" using k Dpos by simp
  finally show "norm_dir (dir r) = k * D" .
  have disc: "discriminant b r = (2 * k * D * \<bar>radius b\<bar>) * (2 * k * D * \<bar>radius b\<bar>)"
    by (simp add: discriminant_def A B C power2_eq_square algebra_simps)
  show "0 \<le> discriminant b r" unfolding disc by (rule zero_le_square)
  have "sqrt (discriminant b r) = \<bar>2 * k * D * \<bar>radius b\<bar>\<bar>"
    unfolding disc by (rule real_sqrt_abs2)
  also have "\<dots> = 2 * k * D * \<bar>radius b\<bar>"
    using k Dpos by (simp add: abs_mult)
  finally have s: "sqrt (discriminant b r) = 2 * k * D * \<bar>radius b\<bar>" .
  have "smallerRoot b r = (2 * k * (D * D) - 2 * k * D * \<bar>radius b\<bar>) / (2 * (k * k * (D * D)))"
    by (simp add: smallerRoot_def s A B)
  also have "\<dots> = (D - \<bar>radius b\<bar>) / (k * D)"
    using k Dpos by (simp add: field_simps)
  finally show "smallerRoot b r = (D - \<bar>radius b\<bar>) / (k * D)" .
qed

lemma aimed_hit:
  assumes k: "0 < k" and aim: "dir r = direction_scale (point_to (src r) (center b)) k"
    and D: "D = distanceTo (src r) (center b)" and far: "\<bar>radius b\<bar> < D"
  shows "if tolerance \<le> (D - \<bar>radius b\<bar>) / norm_dir (dir r)
         then \<exists>p. intersect b r = Some p \<and> distanceTo (src r) p = D - \<bar>radius b\<bar>
         else intersect b r = None"
proof -
  note ar = aimed_root[OF assms]
  have Dpos: "0 < D" using far by linarith
  show ?thesis
  proof (cases "tolerance \<le> (D - \<bar>radius b\<bar>) / norm_dir (dir r)")
    case True
    then have t: "tolerance \<le> smallerRoot b r" by (simp add: ar)
    then have hit: "intersect b r = Some (ray_scale r (smallerRoot b r))"
      using ar(2) by (simp add: intersect_quadratic)
    have "0 \<le> smallerRoot b r" using t by (simp add: tolerance_def)
    then have "distanceTo (src r) (ray_scale r (smallerRoot b r)) = smallerRoot b r * (k * D)"
      by (simp add: distance_along_ray ar(1))
    also have "\<dots> = D - \<bar>radius b\<bar>"
      using k Dpos by (simp add: ar(3))
    finally show ?thesis using True hit by simp
  next
    case False
    then have "smallerRoot b r < tolerance" by (simp add: ar)
    then show ?thesis using False by (simp add: intersect_quadratic)
  qed
qed

lemma shortRay_hit: "intersect unitBall shortRay = Some \<lparr>x = 0, y = 0, z = 1\<rparr>"
  by (simp add: intersect_def unitBall_def shortRay_def Let_def tolerance_def ray_scale_def)

lemma unitBall_distance: "distanceTo \<lparr>x = 0, y = 0, z = 0\<rparr> (center unitBall) = 2"
proof -
  have "sqrt 4 = 2" by simp
  then show ?thesis
    by (simp add: distanceTo_def norm_dir_def norm2_def point_to_def unitBall_def)
qed

text \<open>
  Claim C2, as amended. For every sphere and every ray with a non-zero direction,
  \<open>intersect\<close> reports no intersection when the discriminant of the quadratic is negative
  or its smaller root \<open>t\<close> is below the tolerance, and otherwise returns the ray's point at
  parameter \<open>t\<close>, where \<open>t\<close> solves the quadratic. A ray aimed at the centre from distance
  \<open>D > |radius|\<close> hits at distance \<open>D - |radius|\<close> exactly when
  \<open>(D - |radius|) / |dir|\<close> reaches the tolerance, and reports no hit otherwise. A ray all
  of whose points are farther than \<open>|radius|\<close> from the centre misses, and so does a ray
  that starts inside the sphere.
\<close>

theorem intersect_spec:
  assumes "dir r \<noteq> zeroDir"
  shows "intersect b r =
           (if discriminant b r < 0 \<or> smallerRoot b r < tolerance then None
            else Some (ray_scale r (smallerRoot b r)))
       \<and> (0 \<le> discriminant b r \<longrightarrow>
            quadA r * (smallerRoot b r)\<^sup>2 + quadB b r * smallerRoot b r + quadC b r = 0)
       \<and> (\<forall>k D. 0 < k \<and> dir r = direction_scale (point_to (src r) (center b)) k
              \<and> D = distanceTo (src r) (center b) \<and> \<bar>radius b\<bar> < D \<longrightarrow>
            (if tolerance \<le> (D - \<bar>radius b\<bar>) / norm_dir (dir r)
             then \<exists>p. intersect b r = Some p \<and> distanceTo (src r) p = D - \<bar>radius b\<bar>
             else intersect b r = None))
       \<and> ((\<forall>t\<ge>0. \<bar>radius b\<bar> < distanceTo (center b) (ray_scale r t)) \<longrightarrow> intersect b r = None)
       \<and> (distanceTo (center b) (src r) < \<bar>radius b\<bar> \<longrightarrow> intersect b r = None)"
proof (intro conjI allI impI)
  show "intersect b r =
           (if discriminant b r < 0 \<or> smallerRoot b r < tolerance then None
            else Some (ray_scale r (smallerRoot b r)))"
    by (simp add: intersect_quadratic)
next
  assume "0 \<le> discriminant b r"
  then show "quadA r * (smallerRoot b r)\<^sup>2 + quadB b r * smallerRoot b r + quadC b r = 0"
    by (rule smallerRoot_solves[OF assms])
next
  fix k D
  assume "0 < k \<and> dir r = direction_scale (point_to (src r) (center b)) k
              \<and> D = distanceTo (src r) (center b) \<and> \<bar>radius b\<bar> < D"
  then show "if tolerance \<le> (D - \<bar>radius b\<bar>) / norm_dir (dir r)
             then \<exists>p. intersect b r = Some p \<and> distanceTo (src r) p = D - \<bar>radius b\<bar>
             else intersect b r = None"
    using aimed_hit[of k r b D] by blast
next
  assume "\<forall>t\<ge>0. \<bar>radius b\<bar> < distanceTo (center b) (ray_scale r t)"
  then show "intersect b r = None"
    by (rule intersect_outside_misses[OF assms])
next
  assume "distanceTo (center b) (src r) < \<bar>radius b\<bar>"
  then show "intersect b r = None"
    by (rule intersect_inside_misses[OF assms])
qed

text \<open>
  The ray from the origin with direction \<open>(0,0,1)\<close> is aimed at the centre \<open>(0,0,2)\<close> of
  the sphere of radius 1 from distance 2, and hits at \<open>(0,0,1)\<close>, at distance 1.
\<close>

theorem intersect_spec_witness:
  "dir shortRay \<noteq> zeroDir
   \<and> dir shortRay = direction_scale (point_to (src shortRay) (center unitBall)) (1 / 2)
   \<and> distanceTo (src shortRay) (center unitBall) = 2
   \<and> intersect unitBall shortRay = Some \<lparr>x = 0, y = 0, z = 1\<rparr>
   \<and> distanceTo (src shortRay) \<lparr>x = 0, y = 0, z = 1\<rparr> = 2 - 1"
proof -
  have nz: "dir shortRay \<noteq> zeroDir"
    by (simp add: shortRay_def zeroDir_def)
  have aim: "dir shortRay = direction_scale (point_to (src shortRay) (center unitBall)) (1 / 2)"
    by (simp add: shortRay_def unitBall_def direction_scale_def point_to_def)
  have D: "distanceTo (src shortRay) (center unitBall) = 2"
    using unitBall_distance by (simp add: shortRay_def)
  have n: "norm_dir (dir shortRay) = 1"
    by (simp add: norm_dir_def norm2_def shortRay_def)
  have rad: "\<bar>radius unitBall\<bar> = 1"
    by (simp add: unitBall_def)
  from intersect_spec[OF nz, of unitBall] aim D rad
  have "if tolerance \<le> (2 - \<bar>radius unitBall\<bar>) / norm_dir (dir shortRay)
        then \<exists>p. intersect unitBall shortRay = Some p \<and> distanceTo (src shortRay) p = 2 - \<bar>radius unitBall\<bar>
        else intersect unitBall shortRay = None"
    by (metis zero_less_divide_1_iff zero_less_numeral one_less_numeral_iff semiring_norm(76))
  then obtain p where p: "intersect unitBall shortRay = Some p"
      and dp: "distanceTo (src shortRay) p = 2 - 1"
    by (auto simp: n rad tolerance_def split: if_splits)
  from p shortRay_hit have "p = \<lparr>x = 0, y = 0, z = 1\<rparr>" by simp
  with nz aim D p dp show ?thesis by simp
qed

text \<open>
  Claim C2 as stated fails: the tolerance bounds the ray parameter, not the distance. The
  ray from the origin with direction \<open>(0,0,2000)\<close> is aimed at the centre of the same
  sphere from distance \<open>2 > 1\<close>; its entry point has parameter \<open>1/2000\<close>, below the
  tolerance, and \<open>intersect\<close> reports no hit.
\<close>

theorem aimed_ray_counterexample:
  "dir longRay = direction_scale (point_to (src longRay) (center unitBall)) 1000
   \<and> distanceTo (src longRay) (center unitBall) = 2
   \<and> radius unitBall < 2
   \<and> intersect unitBall longRay = None"
proof -
  have s: "sqrt 16000000 = 4000"
    by (rule real_sqrt_unique) simp_all
  have "intersect unitBall longRay = None"
    by (simp add: intersect_def unitBall_def longRay_def Let_def tolerance_def s)
  moreover have "distanceTo (src longRay) (center unitBall) = 2"
    using unitBall_distance by (simp add: longRay_def)
  ultimately show ?thesis
    by (simp add: longRay_def unitBall_def direction_scale_def point_to_def)
qed

section \<open>Reflection\<close>

lemma reflect_smooth:
  assumes "\<not> luminous (mat b)" and "roughness (mat b) \<le> 0"
  shows "reflect b r p = (([\<lparr>src = p, dir = mirror (dir r) (outwardNormal b p)\<rparr>], [1], color (mat b)), b)"
  using assms
  by (simp add: reflect_def Let_def normal_dir rotateAround_flip outwardNormal_def ray_flip_eq)

text \<open>
  Claim C1. For a sphere of non-zero radius with a non-luminous material of roughness 0
  and a ray that hits it at \<open>p\<close>, \<open>reflect\<close> returns exactly one outgoing ray, of weight
  1, from \<open>p\<close>, whose direction is the mirror image of the incoming direction about the
  unit outward normal at \<open>p\<close>: its component along the normal is negated and its length
  is kept. The sphere is left as it was.
\<close>

theorem reflect_mirror:
  assumes "\<not> luminous (mat b)" and "roughness (mat b) = 0"
    and "intersect b r = Some p" and "radius b \<noteq> 0"
  shows "reflect b r p
           = (([\<lparr>src = p, dir = mirror (dir r) (outwardNormal b p)\<rparr>], [1], color (mat b)), b)
       \<and> norm2 (outwardNormal b p) = 1
       \<and> dot (mirror (dir r) (outwardNormal b p)) (outwardNormal b p)
           = - dot (dir r) (outwardNormal b p)
       \<and> norm2 (mirror (dir r) (outwardNormal b p)) = norm2 (dir r)"
proof -
  have "norm2 (point_to (center b) p) = (radius b)\<^sup>2"
    using hit_on_sphere[OF assms(3) intersect_dir_nonzero[OF assms(3)]] .
  then have "0 < norm2 (point_to (center b) p)"
    using assms(4) by simp
  then have u: "norm2 (outwardNormal b p) = 1"
    unfolding outwardNormal_def by (rule norm2_normalize)
  show ?thesis
    using reflect_smooth[of b r p] assms(1,2) u mirror_dot[OF u] mirror_norm2[OF u] by simp
qed

text \<open>
  The ray from the origin with direction \<open>(0,0,1)\<close> hits the sphere of radius 1 around
  \<open>(0,0,2)\<close> at \<open>(0,0,1)\<close> and is sent straight back.
\<close>

theorem reflect_mirror_witness:
  "reflect unitBall shortRay \<lparr>x = 0, y = 0, z = 1\<rparr>
     = (([\<lparr>src = \<lparr>x = 0, y = 0, z = 1\<rparr>, dir = \<lparr>dx = 0, dy = 0, dz = -1\<rparr>\<rparr>], [1],
         \<lparr>cR = 255, cG = 0, cB = 0, cA = 255\<rparr>), unitBall)"
proof -
  have n: "outwardNormal unitBall \<lparr>x = 0, y = 0, z = 1\<rparr> = \<lparr>dx = 0, dy = 0, dz = -1\<rparr>"
    by (simp add: outwardNormal_def normalize_dir_def norm_dir_def norm2_def point_to_def
        unitBall_def Let_def)
  have m: "mirror (dir shortRay) \<lparr>dx = 0, dy = 0, dz = -1\<rparr> = \<lparr>dx = 0, dy = 0, dz = -1\<rparr>"
    by (simp add: mirror_def shortRay_def dot_def direction_add_def direction_scale_def)
  have "\<not> luminous (mat unitBall)" "roughness (mat unitBall) = 0" "radius unitBall \<noteq> 0"
    by (simp_all add: unitBall_def)
  from reflect_mirror[OF this(1,2) shortRay_hit this(3)] show ?thesis
    by (simp add: n m) (simp add: unitBall_def)
qed

section \<open>The nearest hit\<close>


lemma scanObjects_none:
  "\<forall>b\<in>set obs. intersect b r = None \<Longrightarrow> scanObjects obs r i st = st"
  by (induction obs arbitrary: i) (cases st; simp)+

lemma scanObjects_sound:
  assumes "scanObjects obs r i (minDist, minI, ipnt) = (minDist', minI', ipnt')"
    and "minI = -1 \<longrightarrow> minDist < 0" and "minI \<noteq> -1 \<longrightarrow> 0 \<le> minDist" and "minI < int i"
  shows "(minI' = minI \<and> minDist' = minDist \<and> ipnt' = ipnt
            \<and> (\<forall>k<length obs. \<forall>q. intersect (obs ! k) r = Some q \<longrightarrow>
                  minI \<noteq> -1 \<and> minDist \<le> distanceTo (src r) q))
       \<or> (\<exists>k<length obs. minI' = int (i + k) \<and> intersect (obs ! k) r = Some ipnt'
              \<and> minDist' = distanceTo (src r) ipnt'
              \<and> (minI \<noteq> -1 \<longrightarrow> minDist' < minDist)
              \<and> (\<forall>j<length obs. \<forall>q. intersect (obs ! j) r = Some q \<longrightarrow>
                    minDist' \<le> distanceTo (src r) q \<and> (j < k \<longrightarrow> minDist' < distanceTo (src r) q)))"
  using assms
proof (induction obs arbitrary: i minDist minI ipnt)
  case Nil
  then show ?case by simp
next
  case (Cons ob obs)
  show ?case
  proof (cases "intersect ob r")
    case None
    with Cons.prems(1) have run: "scanObjects obs r (i + 1) (minDist, minI, ipnt) = (minDist', minI', ipnt')"
      by simp
    from Cons.prems(4) have lt: "minI < int (i + 1)" by simp
    from Cons.IH[OF run Cons.prems(2,3) lt]
    show ?thesis
    proof (elim disjE conjE exE)
      assume same: "minI' = minI" "minDist' = minDist" "ipnt' = ipnt"
        and rest: "\<forall>k<length obs. \<forall>q. intersect (obs ! k) r = Some q \<longrightarrow>
                  minI \<noteq> -1 \<and> minDist \<le> distanceTo (src r) q"
      have "\<forall>k<length (ob # obs). \<forall>q. intersect ((ob # obs) ! k) r = Some q \<longrightarrow>
                  minI \<noteq> -1 \<and> minDist \<le> distanceTo (src r) q"
        using rest None by (auto simp: nth_Cons split: nat.splits)
      with same show ?thesis by blast
    next
      fix k
      assume k: "k < length obs" "minI' = int (i + 1 + k)" "intersect (obs ! k) r = Some ipnt'"
        "minDist' = distanceTo (src r) ipnt'" "minI \<noteq> -1 \<longrightarrow> minDist' < minDist"
        and rest: "\<forall>j<length obs. \<forall>q. intersect (obs ! j) r = Some q \<longrightarrow>
                    minDist' \<le> distanceTo (src r) q \<and> (j < k \<longrightarrow> minDist' < distanceTo (src r) q)"
      have "\<forall>j<length (ob # obs). \<forall>q. intersect ((ob # obs) ! j) r = Some q \<longrightarrow>
                    minDist' \<le> distanceTo (src r) q \<and> (j < Suc k \<longrightarrow> minDist' < distanceTo (src r) q)"
        using rest None by (auto simp: nth_Cons split: nat.splits)
      with k have "Suc k < length (ob # obs) \<and> minI' = int (i + Suc k)
          \<and> intersect ((ob # obs) ! Suc k) r = Some ipnt'
          \<and> minDist' = distanceTo (src r) ipnt' \<and> (minI \<noteq> -1 \<longrightarrow> minDist' < minDist)
          \<and> (\<forall>j<length (ob # obs). \<forall>q. intersect ((ob # obs) ! j) r = Some q \<longrightarrow>
                    minDist' \<le> distanceTo (src r) q \<and> (j < Suc k \<longrightarrow> minDist' < distanceTo (src r) q))"
        by simp
      then show ?thesis by blast
    qed
  next
    case (Some q0)
    define d0 where "d0 = distanceTo (src r) q0"
    have d0: "0 \<le> d0" by (simp add: d0_def distanceTo_def norm_dir_nonneg)
    show ?thesis
    proof (cases "minDist < 0 \<or> d0 < minDist")
      case True
      with Cons.prems(1) Some
      have run: "scanObjects obs r (i + 1) (d0, int i, q0) = (minDist', minI', ipnt')"
        by (simp add: d0_def distanceTo_def)
      have better: "minI \<noteq> -1 \<longrightarrow> d0 < minDist"
        using True Cons.prems(3) by auto
      have "int i = -1 \<longrightarrow> d0 < 0" "int i \<noteq> -1 \<longrightarrow> 0 \<le> d0" "int i < int (i + 1)"
        using d0 by simp_all
      from Cons.IH[OF run this]
      show ?thesis
      proof (elim disjE conjE exE)
        assume same: "minI' = int i" "minDist' = d0" "ipnt' = q0"
          and rest: "\<forall>k<length obs. \<forall>q. intersect (obs ! k) r = Some q \<longrightarrow>
                  int i \<noteq> -1 \<and> d0 \<le> distanceTo (src r) q"
        have "\<forall>j<length (ob # obs). \<forall>q. intersect ((ob # obs) ! j) r = Some q \<longrightarrow>
                    minDist' \<le> distanceTo (src r) q \<and> (j < 0 \<longrightarrow> minDist' < distanceTo (src r) q)"
          using rest Some same by (auto simp: nth_Cons d0_def split: nat.splits)
        with same Some better have "0 < length (ob # obs) \<and> minI' = int (i + 0)
          \<and> intersect ((ob # obs) ! 0) r = Some ipnt'
          \<and> minDist' = distanceTo (src r) ipnt' \<and> (minI \<noteq> -1 \<longrightarrow> minDist' < minDist)
          \<and> (\<forall>j<length (ob # obs). \<forall>q. intersect ((ob # obs) ! j) r = Some q \<longrightarrow>
                    minDist' \<le> distanceTo (src r) q \<and> (j < 0 \<longrightarrow> minDist' < distanceTo (src r) q))"
          by (simp add: d0_def)
        then show ?thesis by blast
      next
        fix k
        assume k: "k < length obs" "minI' = int (i + 1 + k)" "intersect (obs ! k) r = Some ipnt'"
          "minDist' = distanceTo (src r) ipnt'" "int i \<noteq> -1 \<longrightarrow> minDist' < d0"
          and rest: "\<forall>j<length obs. \<forall>q. intersect (obs ! j) r = Some q \<longrightarrow>
                    minDist' \<le> distanceTo (src r) q \<and> (j < k \<longrightarrow> minDist' < distanceTo (src r) q)"
        from k(5) have lt: "minDist' < d0" by simp
        have "\<forall>j<length (ob # obs). \<forall>q. intersect ((ob # obs) ! j) r = Some q \<longrightarrow>
                    minDist' \<le> distanceTo (src r) q \<and> (j < Suc k \<longrightarrow> minDist' < distanceTo (src r) q)"
          using rest Some lt by (auto simp: nth_Cons d0_def split: nat.splits)
        with k lt better have "Suc k < length (ob # obs) \<and> minI' = int (i + Suc k)
          \<and> intersect ((ob # obs) ! Suc k) r = Some ipnt'
          \<and> minDist' = distanceTo (src r) ipnt' \<and> (minI \<noteq> -1 \<longrightarrow> minDist' < minDist)
          \<and> (\<forall>j<length (ob # obs). \<forall>q. intersect ((ob # obs) ! j) r = Some q \<longrightarrow>
                    minDist' \<le> distanceTo (src r) q \<and> (j < Suc k \<longrightarrow> minDist' < distanceTo (src r) q))"
          by auto
        then show ?thesis by blast
      qed
    next
      case False
      then have keep: "0 \<le> minDist" "minDist \<le> d0" by auto
      then have had: "minI \<noteq> -1" using Cons.prems(2) by auto
      from False Cons.prems(1) Some
      have run: "scanObjects obs r (i + 1) (minDist, minI, ipnt) = (minDist', minI', ipnt')"
        by (simp add: d0_def distanceTo_def)
      from Cons.prems(4) have lt: "minI < int (i + 1)" by simp
      from Cons.IH[OF run Cons.prems(2,3) lt]
      show ?thesis
      proof (elim disjE conjE exE)
        assume same: "minI' = minI" "minDist' = minDist" "ipnt' = ipnt"
          and rest: "\<forall>k<length obs. \<forall>q. intersect (obs ! k) r = Some q \<longrightarrow>
                  minI \<noteq> -1 \<and> minDist \<le> distanceTo (src r) q"
        have "\<forall>k<length (ob # obs). \<forall>q. intersect ((ob # obs) ! k) r = Some q \<longrightarrow>
                  minI \<noteq> -1 \<and> minDist \<le> distanceTo (src r) q"
          using rest Some keep had by (auto simp: nth_Cons d0_def split: nat.splits)
        with same show ?thesis by blast
      next
        fix k
        assume k: "k < length obs" "minI' = int (i + 1 + k)" "intersect (obs ! k) r = Some ipnt'"
          "minDist' = distanceTo (src r) ipnt'" "minI \<noteq> -1 \<longrightarrow> minDist' < minDist"
          and rest: "\<forall>j<length obs. \<forall>q. intersect (obs ! j) r = Some q \<longrightarrow>
                    minDist' \<le> distanceTo (src r) q \<and> (j < k \<longrightarrow> minDist' < distanceTo (src r) q)"
        from k(5) had keep have lt: "minDist' < d0" by simp
        have "\<forall>j<length (ob # obs). \<forall>q. intersect ((ob # obs) ! j) r = Some q \<longrightarrow>
                    minDist' \<le> distanceTo (src r) q \<and> (j < Suc k \<longrightarrow> minDist' < distanceTo (src r) q)"
          using rest Some lt by (auto simp: nth_Cons d0_def split: nat.splits)
        with k have "Suc k < length (ob # obs) \<and> minI' = int (i + Suc k)
          \<and> intersect ((ob # obs) ! Suc k) r = Some ipnt'
          \<and> minDist' = distanceTo (src r) ipnt' \<and> (minI \<noteq> -1 \<longrightarrow> minDist' < minDist)
          \<and> (\<forall>j<length (ob # obs). \<forall>q. intersect ((ob # obs) ! j) r = Some q \<longrightarrow>
                    minDist' \<le> distanceTo (src r) q \<and> (j < Suc k \<longrightarrow> minDist' < distanceTo (src r) q))"
          by simp
        then show ?thesis by blast
      qed
    qed
  qed
qed


section \<open>Shading\<close>

declare getColor.simps(2) [simp del]

lemma reflect_luminous: "luminous (mat b) \<Longrightarrow> reflect b r p = (([], [], color (mat b)), b)"
  by (simp add: reflect_def)

lemma getColor_hit:
  assumes "nearestHit s r = (minDist, minI, ipnt)" and "minI \<noteq> -1"
  shows "getColor (Suc n) s r = shadeHit n s r (nat minI) ipnt"
proof -
  obtain outgoing weights cc b' where
    refl: "reflect (objects s ! nat minI) r ipnt = ((outgoing, weights, cc), b')"
    by (metis surj_pair)
  show ?thesis
  proof (cases "outgoing = []")
    case True
    with assms refl show ?thesis
      by (simp add: shadeHit_def getColor.simps(2))
  next
    case False
    with assms refl show ?thesis
      by (auto simp: shadeHit_def blend_def Let_def getColor.simps(2) split: option.splits prod.splits)
  qed
qed

lemma getColor_miss:
  assumes "nearestHit s r = (minDist, minI, ipnt)" and "minI = -1"
  shows "getColor (Suc n) s r = Some (background s, s)"
  using assms by (simp add: getColor.simps(2))

lemma nearestHit_facts:
  assumes "nearestHit s r = (minDist, minI, ipnt)"
  shows "(minI = -1 \<and> (\<forall>b\<in>set (objects s). intersect b r = None))
       \<or> (0 \<le> minI \<and> nat minI < length (objects s)
            \<and> intersect (objects s ! nat minI) r = Some ipnt
            \<and> minDist = distanceTo (src r) ipnt
            \<and> (\<forall>j<length (objects s). \<forall>q. intersect (objects s ! j) r = Some q \<longrightarrow>
                  minDist \<le> distanceTo (src r) q
                  \<and> (j < nat minI \<longrightarrow> minDist < distanceTo (src r) q)))"
proof -
  from assms have run: "scanObjects (objects s) r 0 (-1, -1, \<lparr>x = 0, y = 0, z = 0\<rparr>) = (minDist, minI, ipnt)"
    by (simp add: nearestHit_def)
  have "(-1::int) = -1 \<longrightarrow> (-1::real) < 0" "(-1::int) \<noteq> -1 \<longrightarrow> (0::real) \<le> -1" "(-1::int) < int 0"
    by simp_all
  from scanObjects_sound[OF run this] show ?thesis
  proof (elim disjE conjE exE)
    assume "minI = -1"
      and "\<forall>k<length (objects s). \<forall>q. intersect (objects s ! k) r = Some q \<longrightarrow>
             (-1::int) \<noteq> -1 \<and> -1 \<le> distanceTo (src r) q"
    then have "minI = -1 \<and> (\<forall>b\<in>set (objects s). intersect b r = None)"
      by (auto simp: in_set_conv_nth)
    then show ?thesis by blast
  next
    fix k
    assume "k < length (objects s)" "minI = int (0 + k)" "intersect (objects s ! k) r = Some ipnt"
      "minDist = distanceTo (src r) ipnt"
      "\<forall>j<length (objects s). \<forall>q. intersect (objects s ! j) r = Some q \<longrightarrow>
         minDist \<le> distanceTo (src r) q \<and> (j < k \<longrightarrow> minDist < distanceTo (src r) q)"
    then show ?thesis by simp
  qed
qed



lemma shortRay_dist: "norm_dir (point_to (src shortRay) \<lparr>x = 0, y = 0, z = 1\<rparr>) = 1"
  by (simp add: norm_dir_def norm2_def point_to_def shortRay_def)




lemma luminous_getColor:
  assumes "nearestHit s r = (minDist, minI, ipnt)" and "minI \<noteq> -1"
    and "luminous (mat (objects s ! nat minI))"
  shows "getColor (Suc n) s r = Some (color (mat (objects s ! nat minI)), s)"
  using getColor_hit[OF assms(1,2), of n] reflect_luminous[OF assms(3), of r ipnt]
  by (simp add: shadeHit_def)

lemma mainScene_objects: "objects mainScene = [greenBall, whiteBall]"
  by (simp add: mainScene_def)

lemma mainScene_white_only:
  assumes "intersect greenBall r = None" and "intersect whiteBall r \<noteq> None"
  shows "getColor (Suc n) mainScene r = Some (\<lparr>cR = 255, cG = 255, cB = 255, cA = 255\<rparr>, mainScene)"
proof -
  from assms(2) obtain p where p: "intersect whiteBall r = Some p" by auto
  have near: "nearestHit mainScene r = (norm_dir (point_to (src r) p), 1, p)"
    using assms(1) p by (simp add: nearestHit_def mainScene_objects)
  have "luminous (mat (objects mainScene ! nat 1))"
    by (simp add: mainScene_objects whiteBall_def)
  from luminous_getColor[OF near _ this, of n] show ?thesis
    by (simp add: mainScene_objects) (simp add: whiteBall_def)
qed

text \<open>
  Claim C6. When the nearest hit of a ray lands on a sphere with luminous material,
  \<open>reflect\<close> returns no outgoing ray and no weight, together with the material's colour,
  and \<open>getColor\<close> returns that colour. It does so for every fuel \<open>Suc n\<close>, also for
  \<open>n = 0\<close>, where a nested call of \<open>getColor\<close> could only return \<open>None\<close>: no
  recursive call is made. In the scene of \<^verbatim>\<open>main\<close>, a ray that misses the green sphere
  and hits the white one is shaded \<open>(255,255,255,255)\<close>.
\<close>

theorem luminous_stops:
  "(nearestHit s r = (minDist, minI, ipnt) \<and> minI \<noteq> -1
      \<and> luminous (mat (objects s ! nat minI)) \<longrightarrow>
      reflect (objects s ! nat minI) r ipnt
        = (([], [], color (mat (objects s ! nat minI))), objects s ! nat minI)
      \<and> getColor (Suc n) s r = Some (color (mat (objects s ! nat minI)), s))
   \<and> (intersect greenBall r' = None \<and> intersect whiteBall r' \<noteq> None \<longrightarrow>
        getColor (Suc n) mainScene r'
          = Some (\<lparr>cR = 255, cG = 255, cB = 255, cA = 255\<rparr>, mainScene))"
  using luminous_getColor[of s r minDist minI ipnt n] reflect_luminous mainScene_white_only[of r' n]
  by blast

lemma cameraRay_500_1800:
  "cameraRay 500 1800 = \<lparr>src = \<lparr>x = 0, y = 0, z = 0\<rparr>, dir = \<lparr>dx = 0.4, dy = 0, dz = 1\<rparr>\<rparr>"
  by (simp add: cameraRay_def Let_def getRay_def point_to_def)

lemma green_misses_1800: "intersect greenBall (cameraRay 500 1800) = None"
  by (simp add: cameraRay_500_1800 intersect_def greenBall_def Let_def)

lemma white_hit_1800: "intersect whiteBall (cameraRay 500 1800) = Some brightHit"
proof -
  have d: "discriminant whiteBall (cameraRay 500 1800) = 3392"
    by (simp add: cameraRay_500_1800 discriminant_def quadA_def quadB_def quadC_def
        originOffset_def whiteBall_def norm2_def dot_def point_to_def power2_eq_square)
  have t: "smallerRoot whiteBall (cameraRay 500 1800) = (104 - sqrt 3392) / (2 * (29 / 25))"
    unfolding smallerRoot_def d
    by (simp add: cameraRay_500_1800 quadA_def quadB_def originOffset_def whiteBall_def
        norm2_def dot_def point_to_def)
  have "sqrt 3392 \<le> 59"
    by (rule real_le_lsqrt) simp_all
  then have "tolerance \<le> (104 - sqrt 3392) / (2 * (29 / 25))"
    by (simp add: tolerance_def field_simps)
  then have "\<not> smallerRoot whiteBall (cameraRay 500 1800) < tolerance"
    by (simp add: t)
  then show ?thesis
    by (simp add: intersect_quadratic d brightHit_def)
qed

lemma bright_nearest:
  "nearestHit mainScene (cameraRay 500 1800)
     = (distanceTo (src (cameraRay 500 1800)) brightHit, 1, brightHit)"
  by (simp add: nearestHit_def mainScene_objects green_misses_1800 white_hit_1800 distanceTo_def)

text \<open>
  The camera ray through row 500, column 1800 is such a ray.
\<close>

theorem luminous_stops_witness:
  "nearestHit mainScene (cameraRay 500 1800)
     = (distanceTo (src (cameraRay 500 1800)) brightHit, 1, brightHit)
   \<and> luminous (mat (objects mainScene ! 1))
   \<and> reflect (objects mainScene ! 1) (cameraRay 500 1800) brightHit
       = (([], [], \<lparr>cR = 255, cG = 255, cB = 255, cA = 255\<rparr>), whiteBall)
   \<and> intersect greenBall (cameraRay 500 1800) = None
   \<and> intersect whiteBall (cameraRay 500 1800) \<noteq> None
   \<and> getColor 1 mainScene (cameraRay 500 1800)
       = Some (\<lparr>cR = 255, cG = 255, cB = 255, cA = 255\<rparr>, mainScene)"
proof -
  have lum: "luminous (mat (objects mainScene ! 1))"
    by (simp add: mainScene_objects whiteBall_def)
  have col: "color (mat (objects mainScene ! 1)) = \<lparr>cR = 255, cG = 255, cB = 255, cA = 255\<rparr>"
    by (simp add: mainScene_objects whiteBall_def)
  from luminous_stops[of mainScene "cameraRay 500 1800" "distanceTo (src (cameraRay 500 1800)) brightHit"
      1 brightHit 0 "cameraRay 500 1800"]
    bright_nearest lum green_misses_1800 white_hit_1800
  show ?thesis
    using col by (simp add: mainScene_objects)
qed

lemma getColor_no_hit:
  "\<forall>b\<in>set (objects s). intersect b r = None \<Longrightarrow> getColor (Suc n) s r = Some (background s, s)"
  by (simp add: getColor.simps(2) nearestHit_def scanObjects_none)

text \<open>
  Claim C7. A ray with a non-zero direction that intersects no shape is shaded with the
  background colour of the scene; in the scene of \<^verbatim>\<open>main\<close>, such a ray that misses
  both spheres is shaded \<open>(32,32,32,255)\<close>.
\<close>

theorem miss_background:
  "(dir r \<noteq> zeroDir \<and> (\<forall>b\<in>set (objects s). intersect b r = None) \<longrightarrow>
      getColor (Suc n) s r = Some (background s, s))
   \<and> (dir r' \<noteq> zeroDir \<and> intersect greenBall r' = None \<and> intersect whiteBall r' = None \<longrightarrow>
        getColor (Suc n) mainScene r'
          = Some (\<lparr>cR = 32, cG = 32, cB = 32, cA = 255\<rparr>, mainScene))"
proof -
  have "getColor (Suc n) mainScene r' = Some (background mainScene, mainScene)"
    if "intersect greenBall r' = None \<and> intersect whiteBall r' = None"
    using that by (intro getColor_no_hit) (simp add: mainScene_objects)
  then show ?thesis using getColor_no_hit[of s r n] by (simp add: mainScene_def)
qed

lemma cameraRay_0_0:
  "cameraRay 0 0 = \<lparr>src = \<lparr>x = 0, y = 0, z = 0\<rparr>, dir = \<lparr>dx = -0.5, dy = -0.25, dz = 1\<rparr>\<rparr>"
  by (simp add: cameraRay_def Let_def getRay_def point_to_def)

lemma corner_misses:
  "intersect greenBall (cameraRay 0 0) = None" "intersect whiteBall (cameraRay 0 0) = None"
  by (simp_all add: cameraRay_0_0 intersect_def greenBall_def whiteBall_def Let_def)

text \<open>
  The camera ray through row 0, column 0 misses both spheres.
\<close>

theorem miss_background_witness:
  "dir (cameraRay 0 0) \<noteq> zeroDir
   \<and> intersect greenBall (cameraRay 0 0) = None \<and> intersect whiteBall (cameraRay 0 0) = None
   \<and> getColor 1 mainScene (cameraRay 0 0)
       = Some (\<lparr>cR = 32, cG = 32, cB = 32, cA = 255\<rparr>, mainScene)"
proof -
  have "dir (cameraRay 0 0) \<noteq> zeroDir"
    by (simp add: cameraRay_0_0 zeroDir_def)
  with miss_background[of "cameraRay 0 0" mainScene 0 "cameraRay 0 0"] corner_misses
  show ?thesis by simp
qed

section \<open>The scattering fan\<close>

text \<open>
  The two loops of \<open>reflect\<close> in closed form: what the model returns for a rough sphere.
  The lemmas of this section serve the theorems on the weights and on the state of the
  scene, which need the shape of the result only (one ray of weight 1, then 72 rays of
  weight \<open>1/72\<close> for every ring, all from the hit point).
\<close>

lemma angleLoop_step:
  "angle < 360 \<Longrightarrow>
   angleLoop p out n1 n2 rad angle (outgoing, weights) =
     angleLoop p out n1 n2 rad (angle + 5)
       (outgoing @ [\<lparr>src = p, dir = fanDirection out n1 n2 rad (real_of_int angle)\<rparr>],
        weights @ [1 / 72])"
  by (subst angleLoop.simps)
     (simp add: Let_def fanDirection_def direction_add_def direction_scale_def algebra_simps)

lemma angleLoop_stop:
  "\<not> angle < 360 \<Longrightarrow> angleLoop p out n1 n2 rad angle (outgoing, weights) = (outgoing, weights)"
  by (subst angleLoop.simps) simp

lemma angleLoop_from:
  "k \<le> 72 \<Longrightarrow>
   angleLoop p out n1 n2 rad (5 * int k) (outgoing, weights) =
     (outgoing @ map (\<lambda>k. \<lparr>src = p, dir = fanDirection out n1 n2 rad (5 * real k)\<rparr>) [k..<72],
      weights @ replicate (72 - k) (1 / 72))"
proof (induction "72 - k" arbitrary: k outgoing weights)
  case 0
  then have k: "k = 72" by simp
  show ?case unfolding k by (simp add: angleLoop_stop)
next
  case (Suc m)
  then have lt: "k < 72" and m: "m = 72 - Suc k" by simp_all
  have next_angle: "5 * int k + 5 = 5 * int (Suc k)" by simp
  have "angleLoop p out n1 n2 rad (5 * int k) (outgoing, weights) =
     angleLoop p out n1 n2 rad (5 * int (Suc k))
       (outgoing @ [\<lparr>src = p, dir = fanDirection out n1 n2 rad (real_of_int (5 * int k))\<rparr>],
        weights @ [1 / 72])"
  proof -
    from lt have "5 * int k < 360" by linarith
    from angleLoop_step[OF this] show ?thesis by (simp only: next_angle)
  qed
  also have "\<dots> =
     ((outgoing @ [\<lparr>src = p, dir = fanDirection out n1 n2 rad (real_of_int (5 * int k))\<rparr>])
        @ map (\<lambda>k. \<lparr>src = p, dir = fanDirection out n1 n2 rad (5 * real k)\<rparr>) [Suc k..<72],
      (weights @ [1 / 72]) @ replicate (72 - Suc k) (1 / 72))"
    using lt by (intro Suc.hyps(1)[OF m]) simp
  also have "\<dots> =
     (outgoing @ map (\<lambda>k. \<lparr>src = p, dir = fanDirection out n1 n2 rad (5 * real k)\<rparr>) [k..<72],
      weights @ replicate (72 - k) (1 / 72))"
    using lt by (simp add: upt_conv_Cons Suc_diff_Suc replicate_Suc[symmetric] del: replicate_Suc)
  finally show ?case .
qed

lemma angleLoop_ring:
  "angleLoop p out (fst (fanBasis out)) (snd (fanBasis out)) rad 0 (outgoing, weights) =
     (outgoing @ fanRing p out rad, weights @ replicate 72 (1 / 72))"
  using angleLoop_from[of 0 p out "fst (fanBasis out)" "snd (fanBasis out)" rad outgoing weights]
  by (simp add: fanRing_def)

text \<open>The rings from a given starting radius.\<close>

lemma radiusLoop_from:
  "radiusLoop p out (fst (fanBasis out)) (snd (fanBasis out)) bound rad (outgoing, weights) =
     (let N = (if rad \<le> bound then nat (\<lfloor>(bound - rad) * 20\<rfloor> + 1) else 0)
      in (outgoing @ concat (map (\<lambda>j. fanRing p out (rad + 0.05 * real j)) [0..<N]),
          weights @ replicate (72 * N) (1 / 72)))"
proof (induction p out "fst (fanBasis out)" "snd (fanBasis out)" bound rad "(outgoing, weights)"
    arbitrary: outgoing weights rule: radiusLoop.induct)
  case (1 p out bound rad)
  show ?case
  proof (cases "rad \<le> bound")
    case False
    then show ?thesis by (subst radiusLoop.simps) simp
  next
    case True
    define N' where "N' = (if rad + 0.05 \<le> bound then nat (\<lfloor>(bound - (rad + 0.05)) * 20\<rfloor> + 1) else 0)"
    define a where "a = (bound - rad) * 20"
    have a0: "0 \<le> a" using True by (simp add: a_def)
    have a': "(bound - (rad + 0.05)) * 20 = a - 1"
      by (simp add: a_def algebra_simps)
    have c5: "(0.05::real) = 1 / 20" by simp
    have cond: "rad + 0.05 \<le> bound \<longleftrightarrow> 1 \<le> a"
      unfolding a_def c5 by (auto simp: algebra_simps)
    have N: "nat (\<lfloor>a\<rfloor> + 1) = Suc N'"
    proof (cases "1 \<le> a")
      case True
      then have "1 \<le> \<lfloor>a\<rfloor>" by linarith
      then show ?thesis
        unfolding N'_def a' using True cond by (simp add: nat_add_distrib)
    next
      case False
      then have "\<lfloor>a\<rfloor> = 0" using a0 by linarith
      then show ?thesis
        unfolding N'_def using False cond by simp
    qed
    have shift: "rad + 0.05 * real (Suc j) = rad + 0.05 + 0.05 * real j" for j
      by (simp add: algebra_simps)
    have first: "rad + 0.05 * real (0::nat) = rad"
      by simp
    have "[0..<Suc N'] = 0 # map Suc [0..<N']"
      by (simp add: upt_conv_Cons map_Suc_upt del: upt_Suc)
    then have rings: "map (\<lambda>j. fanRing p out (rad + 0.05 * real j)) [0..<Suc N']
        = fanRing p out rad # map (\<lambda>j. fanRing p out (rad + 0.05 + 0.05 * real j)) [0..<N']"
      by (simp only: list.map map_map o_def shift first)
    have "radiusLoop p out (fst (fanBasis out)) (snd (fanBasis out)) bound rad (outgoing, weights)
        = radiusLoop p out (fst (fanBasis out)) (snd (fanBasis out)) bound (rad + 0.05)
            (outgoing @ fanRing p out rad, weights @ replicate 72 (1 / 72))"
      using True by (subst radiusLoop.simps) (simp add: angleLoop_ring)
    also have "\<dots> = ((outgoing @ fanRing p out rad)
          @ concat (map (\<lambda>j. fanRing p out (rad + 0.05 + 0.05 * real j)) [0..<N']),
        (weights @ replicate 72 (1 / 72)) @ replicate (72 * N') (1 / 72))"
      using "1.hyps"[OF True angleLoop_ring] by (simp add: N'_def Let_def)
    also have "\<dots> = (outgoing @ concat (map (\<lambda>j. fanRing p out (rad + 0.05 * real j)) [0..<Suc N']),
        weights @ replicate (72 * Suc N') (1 / 72))"
      unfolding rings by (simp add: replicate_add[symmetric])
    finally show ?thesis
      using True N by (simp add: Let_def a_def)
  qed
qed


lemma zeroDir_iff: "d = zeroDir \<longleftrightarrow> dx d = 0 \<and> dy d = 0 \<and> dz d = 0"
  by (cases d) (simp add: zeroDir_def)

lemma reflect_rough:
  assumes "\<not> luminous (mat b)" and "0 < roughness (mat b)"
  shows "reflect b r p =
     ((\<lparr>src = p, dir = idealDir b r p\<rparr> # fanRays p (idealDir b r p) (5 * min (roughness (mat b)) 1),
       1 # replicate (72 * ringCount (5 * min (roughness (mat b)) 1)) (1 / 72),
       color (mat b)),
      if 1 < roughness (mat b) then b\<lparr>mat := (mat b)\<lparr>roughness := 1\<rparr>\<rparr> else b)"
proof -
  define out where "out = idealDir b r p"
  have out: "rotateAround (dir (ray_flip r)) (dir (ray_flip (getRay p (center b)))) = out"
    by (simp add: out_def idealDir_def ray_flip_eq normal_dir rotateAround_flip outwardNormal_def)
  define bound where "bound = 5 * min (roughness (mat b)) 1"
  have loop: "radiusLoop p out (fst (fanBasis out)) (snd (fanBasis out)) bound 0.01
      ([\<lparr>src = p, dir = out\<rparr>], [1])
      = (\<lparr>src = p, dir = out\<rparr> # fanRays p out bound,
         1 # replicate (72 * ringCount bound) (1 / 72))"
    by (simp add: radiusLoop_from Let_def fanRays_def ringCount_def ringRadius_def)
  show ?thesis
  proof (cases "1 < roughness (mat b)")
    case True
    then have "bound = 5" by (simp add: bound_def)
    with True assms loop show ?thesis
      by (simp add: reflect_def Let_def out split_beta out_def[symmetric] bound_def[symmetric])
  next
    case False
    then have "bound = 5 * roughness (mat b)" by (simp add: bound_def)
    with False assms loop show ?thesis
      by (simp add: reflect_def Let_def out split_beta out_def[symmetric] bound_def[symmetric])
  qed
qed

lemma reflect_cases:
  "reflect b r p =
     (if luminous (mat b) then (([], [], color (mat b)), b)
      else if roughness (mat b) \<le> 0 then
        (([\<lparr>src = p, dir = idealDir b r p\<rparr>], [1], color (mat b)), b)
      else
        ((\<lparr>src = p, dir = idealDir b r p\<rparr> # fanRays p (idealDir b r p) (5 * min (roughness (mat b)) 1),
          1 # replicate (72 * ringCount (5 * min (roughness (mat b)) 1)) (1 / 72),
          color (mat b)),
         if 1 < roughness (mat b) then b\<lparr>mat := (mat b)\<lparr>roughness := 1\<rparr>\<rparr> else b))"
  using reflect_luminous[of b r p] reflect_smooth[of b r p] reflect_rough[of b r p]
  by (simp add: idealDir_def not_le)

lemma roughBall_hit: "intersect roughBall shortRay = Some \<lparr>x = 0, y = 0, z = 1\<rparr>"
  by (simp add: intersect_def roughBall_def shortRay_def Let_def tolerance_def ray_scale_def)



text \<open>
  Claim C4, the statement of the specification on the fan itself, fixes the rings and the
  two basis vectors of the program. Both are discrete results of \<^verbatim>\<open>float64\<close> rounding
  (how often the counter stays below the bound, which component of the reflected
  direction is the first that is not 0), so that a theorem on \<open>radiusLoop\<close> and \<open>fanBasis\<close>
  would describe the model where it is known to differ from the program. No theorem is
  stated for it.
\<close>

section \<open>Weights and the state of the scene\<close>

lemma length_fanRays: "length (fanRays p out bound) = 72 * ringCount bound"
  by (simp add: fanRays_def fanRing_def length_concat o_def sum_list_triv)

lemma reflect_lengths:
  "reflect b r p = ((outgoing, weights, cc), b') \<Longrightarrow> length weights = length outgoing"
  by (auto simp: reflect_cases length_fanRays split: if_splits)

lemma weights_shape:
  assumes "reflect b r p = ((outgoing, weights, cc), b')"
  shows "(outgoing = [] \<and> weights = []) \<or> (\<exists>k. outgoing \<noteq> [] \<and> weights = 1 # replicate k (1 / 72))"
proof -
  have "(outgoing = [] \<and> weights = []) \<or> (outgoing \<noteq> [] \<and> weights = [1])
      \<or> (outgoing \<noteq> [] \<and> weights = 1 # replicate (72 * ringCount (5 * min (roughness (mat b)) 1)) (1 / 72))"
    using assms by (auto simp: reflect_cases split: if_splits)
  then show ?thesis
    by (metis replicate_0)
qed

lemma sum_list_replicate_nonneg: "0 \<le> (c::real) \<Longrightarrow> 0 \<le> sum_list (replicate k c)"
  by (induction k) simp_all

lemma accumulate_totalWeight:
  "accumulate n s cc outgoing weights (tw0, fr0, fg0, fb0) = Some ((tw, fr, fg, fb), s') \<Longrightarrow>
   length weights = length outgoing \<Longrightarrow> tw = tw0 + sum_list weights"
proof (induction outgoing arbitrary: weights s tw0 fr0 fg0 fb0)
  case Nil
  then show ?case by simp
next
  case (Cons ray outgoing)
  from Cons.prems(2) obtain w ws where w: "weights = w # ws" and len: "length ws = length outgoing"
    by (cases weights) auto
  from Cons.prems(1) obtain nc s1 where "getColor n s ray = Some (nc, s1)"
    by (auto simp: w split: option.splits)
  with Cons.prems(1) obtain fr1 fg1 fb1 where
    "accumulate n s1 cc outgoing ws (tw0 + w, fr1, fg1, fb1) = Some ((tw, fr, fg, fb), s')"
    by (auto simp: w split: prod.splits)
  from Cons.IH[OF this len] show ?case
    by (simp add: w)
qed

lemma weights_nonneg:
  assumes "reflect b r p = ((outgoing, weights, cc), b')"
  shows "\<forall>w\<in>set weights. 0 \<le> w" and "outgoing \<noteq> [] \<longrightarrow> 1 \<le> sum_list weights"
proof -
  from weights_shape[OF assms] consider "outgoing = []" "weights = []"
    | k where "outgoing \<noteq> []" "weights = 1 # replicate k (1 / 72)"
    by blast
  then have "(\<forall>w\<in>set weights. 0 \<le> w) \<and> (outgoing \<noteq> [] \<longrightarrow> 1 \<le> sum_list weights)"
  proof cases
    case 1
    then show ?thesis by simp
  next
    case 2
    have "0 \<le> sum_list (replicate k (1 / 72 :: real))"
      by (rule sum_list_replicate_nonneg) simp
    with 2 show ?thesis by auto
  qed
  then show "\<forall>w\<in>set weights. 0 \<le> w" and "outgoing \<noteq> [] \<longrightarrow> 1 \<le> sum_list weights"
    by simp_all
qed

text \<open>
  Claim C9. Every weight that \<open>reflect\<close> returns is non-negative, there is one weight
  per outgoing ray, and when the set of outgoing rays is not empty the weights sum to at
  least 1. The loop of \<open>getColor\<close> over these rays ends, when it ends, with
  \<open>totalWeight\<close> equal to that sum, so the division by it is never a division by zero.
\<close>

theorem reflect_weights:
  assumes "reflect b r p = ((outgoing, weights, cc), b')"
  shows "(\<forall>w\<in>set weights. 0 \<le> w) \<and> length weights = length outgoing
       \<and> (outgoing \<noteq> [] \<longrightarrow> 1 \<le> sum_list weights)
       \<and> (outgoing \<noteq> [] \<longrightarrow>
            (\<forall>n s tw fr fg fb s'.
               accumulate n s cc outgoing weights (0, 0, 0, 0) = Some ((tw, fr, fg, fb), s') \<longrightarrow>
               tw = sum_list weights \<and> 0 < tw))"
proof -
  note len = reflect_lengths[OF assms]
  from weights_nonneg[OF assms]
  have nonneg: "\<forall>w\<in>set weights. 0 \<le> w" and pos: "outgoing \<noteq> [] \<longrightarrow> 1 \<le> sum_list weights"
    by simp_all
  have "tw = sum_list weights \<and> 0 < tw"
    if "outgoing \<noteq> []" "accumulate n s cc outgoing weights (0, 0, 0, 0) = Some ((tw, fr, fg, fb), s')"
    for n s tw fr fg fb s'
    using accumulate_totalWeight[OF that(2) len] pos that(1) by simp
  with nonneg len pos show ?thesis by blast
qed


lemma clamped_refl: "clamped b b"
  by (simp add: clamped_def)

lemma clamped_trans: "clamped a b \<Longrightarrow> clamped b c \<Longrightarrow> clamped a c"
  by (auto simp: clamped_def)

lemma sceneClamped_refl: "sceneClamped s s"
  by (simp add: sceneClamped_def list_all2_refl clamped_refl)

lemma sceneClamped_trans: "sceneClamped s t \<Longrightarrow> sceneClamped t u \<Longrightarrow> sceneClamped s u"
  unfolding sceneClamped_def
  by (auto elim: list_all2_trans[rotated] intro: clamped_trans)



lemma reflect_clamped: "clamped b (snd (reflect b r p))"
  by (simp add: reflect_cases clamped_def)








lemma nearestHit_index:
  assumes "nearestHit s r = (minDist, minI, ipnt)" and "minI \<noteq> -1"
  shows "nat minI < length (objects s)"
  using nearestHit_facts[OF assms(1)] assms(2) by auto



lemma accumulate_clamps:
  assumes pres: "\<forall>s r c s'. getColor n s r = Some (c, s') \<longrightarrow> sceneClamped s s'"
  shows "accumulate n s cc outgoing weights acc = Some (acc', s') \<Longrightarrow> sceneClamped s s'"
proof (induction outgoing arbitrary: weights s acc)
  case Nil
  then show ?case by (simp add: sceneClamped_refl)
next
  case (Cons ray outgoing)
  obtain tw fr fg fb where acc: "acc = (tw, fr, fg, fb)"
    by (cases acc) auto
  from Cons.prems obtain w ws where w: "weights = w # ws"
    unfolding acc by (cases weights) auto
  from Cons.prems obtain nc s1 where g: "getColor n s ray = Some (nc, s1)"
    by (auto simp: w acc split: option.splits)
  with Cons.prems obtain acc1 where "accumulate n s1 cc outgoing ws acc1 = Some (acc', s')"
    by (auto simp: w acc split: prod.splits)
  from Cons.IH[OF this] pres g show ?case
    by (blast intro: sceneClamped_trans)
qed

lemma update_clamped:
  assumes "i < length (objects s)" and "clamped (objects s ! i) b'"
  shows "sceneClamped s (s\<lparr>objects := (objects s)[i := b']\<rparr>)"
proof -
  have "list_all2 clamped (objects s) (objects s)"
    by (simp add: list_all2_refl clamped_refl)
  from list_all2_update_cong[OF this assms(2), of i]
  show ?thesis by (simp add: sceneClamped_def)
qed

lemma getColor_clamps: "getColor n s r = Some (c, s') \<Longrightarrow> sceneClamped s s'"
proof (induction n arbitrary: s r c s')
  case 0
  then show ?case by simp
next
  case (Suc n)
  obtain minDist minI ipnt where near: "nearestHit s r = (minDist, minI, ipnt)"
    by (metis surj_pair)
  show ?case
  proof (cases "minI = -1")
    case True
    from getColor_miss[OF near True, of n] Suc.prems show ?thesis
      by (simp add: sceneClamped_refl)
  next
    case False
    define i where "i = nat minI"
    have i: "i < length (objects s)"
      unfolding i_def by (rule nearestHit_index[OF near False])
    obtain outgoing weights cc b1 where r1: "reflect (objects s ! i) r ipnt = ((outgoing, weights, cc), b1)"
      by (metis surj_pair)
    have "clamped (objects s ! i) b1"
      using reflect_clamped[of "objects s ! i" r ipnt] r1 by simp
    then have upd: "sceneClamped s (s\<lparr>objects := (objects s)[i := b1]\<rparr>)"
      by (rule update_clamped[OF i])
    from getColor_hit[OF near False, of n] Suc.prems
    have hit: "shadeHit n s r i ipnt = Some (c, s')"
      by (simp add: i_def)
    show ?thesis
    proof (cases "outgoing = []")
      case True
      with hit r1 upd show ?thesis
        by (simp add: shadeHit_def)
    next
      case False
      with hit r1 obtain acc where
        "accumulate n (s\<lparr>objects := (objects s)[i := b1]\<rparr>) cc outgoing weights (0, 0, 0, 0) = Some (acc, s')"
        by (auto simp: shadeHit_def)
      moreover have "\<forall>s r c s'. getColor n s r = Some (c, s') \<longrightarrow> sceneClamped s s'"
        using Suc.IH by blast
      ultimately have "sceneClamped (s\<lparr>objects := (objects s)[i := b1]\<rparr>) s'"
        by (rule accumulate_clamps[rotated])
      with upd show ?thesis
        by (blast intro: sceneClamped_trans)
    qed
  qed
qed

text \<open>
  Claim C8, as amended. \<open>reflect\<close> leaves the sphere unchanged except that on a
  non-luminous sphere with roughness above 1 it sets the stored roughness to 1; and
  \<open>getColor\<close> returns the scene with the same background and the same spheres in the same
  order, each of them either unchanged or changed in that way.
\<close>

theorem reflect_only_clamps:
  "snd (reflect b r p) =
     (if \<not> luminous (mat b) \<and> 1 < roughness (mat b) then b\<lparr>mat := (mat b)\<lparr>roughness := 1\<rparr>\<rparr> else b)
   \<and> (getColor n s r' = Some (c, s') \<longrightarrow> sceneClamped s s')"
  using getColor_clamps[of n s r' c s'] by (simp add: reflect_cases)

text \<open>
  Claim C8 as stated fails: calling \<open>reflect\<close> on \<open>roughBall\<close>, whose roughness is 2,
  leaves a sphere whose roughness is 1.
\<close>

theorem reflect_mutates_counterexample:
  "roughness (mat roughBall) = 2
   \<and> roughness (mat (snd (reflect roughBall shortRay \<lparr>x = 0, y = 0, z = 1\<rparr>))) = 1"
  by (simp add: reflect_cases) (simp add: roughBall_def)

text \<open>A ray that starts on the surface of a sphere does not hit that sphere.\<close>

lemma surface_ray_misses:
  assumes "norm2 (point_to (center b) (src r)) = (radius b)\<^sup>2"
  shows "intersect b r = None"
proof (cases "dir r = zeroDir")
  case True
  then show ?thesis
    by (simp add: intersect_def Let_def zeroDir_iff tolerance_def)
next
  case False
  have "quadC b r = 0"
    using assms by (simp add: quadC_def originOffset_def)
  then have "quadA r * 0\<^sup>2 + quadB b r * 0 + quadC b r \<le> 0"
    by simp
  from root_ge_smallerRoot[OF False this] have "smallerRoot b r < tolerance"
    by (simp add: tolerance_def)
  then show ?thesis
    by (simp add: intersect_quadratic)
qed

lemma accumulate_all_miss:
  assumes "\<forall>ray\<in>set outgoing. \<forall>b\<in>set (objects s). intersect b ray = None"
    and "length weights = length outgoing"
  shows "\<exists>acc'. accumulate (Suc n) s cc outgoing weights acc = Some (acc', s)"
  using assms
proof (induction outgoing arbitrary: weights acc)
  case Nil
  have "accumulate (Suc n) s cc [] weights acc = Some (acc, s)"
    by simp
  then show ?case ..
next
  case (Cons ray outgoing)
  from Cons.prems(2) obtain w ws where w: "weights = w # ws" and len: "length ws = length outgoing"
    by (cases weights) auto
  obtain tw fr fg fb where acc: "acc = (tw, fr, fg, fb)"
    by (cases acc) auto
  from Cons.prems(1) have "\<forall>b\<in>set (objects s). intersect b ray = None"
    by simp
  then have g: "getColor (Suc n) s ray = Some (background s, s)"
    by (rule getColor_no_hit)
  from Cons.prems(1) have rest: "\<forall>ray\<in>set outgoing. \<forall>b\<in>set (objects s). intersect b ray = None"
    by simp
  from Cons.IH[OF rest len] g show ?case
    by (simp add: w acc split: prod.splits)
qed


lemma reflect_sources:
  "reflect b r p = ((outgoing, weights, cc), b') \<Longrightarrow> \<forall>ray\<in>set outgoing. src ray = p"
  by (auto simp: reflect_cases fanRays_def fanRing_def split: if_splits)

lemma unitBall_reflect:
  "reflect unitBall shortRay \<lparr>x = 0, y = 0, z = 1\<rparr>
     = (([bounceRay], [1], \<lparr>cR = 255, cG = 0, cB = 0, cA = 255\<rparr>), unitBall)"
proof -
  have "idealDir unitBall shortRay \<lparr>x = 0, y = 0, z = 1\<rparr> = \<lparr>dx = 0, dy = 0, dz = -1\<rparr>"
    by (simp add: idealDir_def outwardNormal_def normalize_dir_def norm_dir_def norm2_def point_to_def
      unitBall_def Let_def mirror_def shortRay_def dot_def direction_add_def direction_scale_def)
  then show ?thesis
    by (simp add: reflect_cases bounceRay_def) (simp add: unitBall_def)
qed

lemma bounceRay_misses: "intersect unitBall bounceRay = None"
  by (rule surface_ray_misses) (simp add: bounceRay_def unitBall_def point_to_def norm2_def)

lemma bounceRay_shade:
  "getColor 1 smoothScene bounceRay = Some (\<lparr>cR = 255, cG = 255, cB = 255, cA = 255\<rparr>, smoothScene)"
  using getColor_no_hit[of smoothScene bounceRay 0] bounceRay_misses
  by (simp add: smoothScene_def)

lemma smooth_accumulate:
  "accumulate 1 smoothScene \<lparr>cR = 255, cG = 0, cB = 0, cA = 255\<rparr> [bounceRay] [1] (0, 0, 0, 0)
     = Some ((1, 65535, 0, 0), smoothScene)"
proof -
  have g: "getColor (Suc 0) smoothScene bounceRay
      = Some (\<lparr>cR = 255, cG = 255, cB = 255, cA = 255\<rparr>, smoothScene)"
    using bounceRay_shade by simp
  show ?thesis
    by (simp add: g RGBA_def)
qed

text \<open>
  The smooth sphere \<open>unitBall\<close> reflects \<open>shortRay\<close> into one ray of weight 1, and the
  loop over it ends with total weight 1.
\<close>

theorem reflect_weights_witness:
  "reflect unitBall shortRay \<lparr>x = 0, y = 0, z = 1\<rparr>
     = (([bounceRay], [1], \<lparr>cR = 255, cG = 0, cB = 0, cA = 255\<rparr>), unitBall)
   \<and> accumulate 1 smoothScene \<lparr>cR = 255, cG = 0, cB = 0, cA = 255\<rparr> [bounceRay] [1] (0, 0, 0, 0)
       = Some ((1, 65535, 0, 0), smoothScene)
   \<and> (1::real) = sum_list [1] \<and> (0::real) < 1"
  using reflect_weights[OF unitBall_reflect] unitBall_reflect smooth_accumulate
  by simp

lemma roughBall_reflect:
  "\<exists>outgoing weights.
     reflect roughBall shortRay \<lparr>x = 0, y = 0, z = 1\<rparr>
       = ((outgoing, weights, \<lparr>cR = 0, cG = 255, cB = 0, cA = 255\<rparr>),
          roughBall\<lparr>mat := (mat roughBall)\<lparr>roughness := 1\<rparr>\<rparr>)
     \<and> outgoing \<noteq> []"
  by (simp add: reflect_cases) (simp add: roughBall_def)

lemma roughScene_nearest: "nearestHit roughScene shortRay = (1, 0, \<lparr>x = 0, y = 0, z = 1\<rparr>)"
  by (simp add: nearestHit_def roughScene_def roughBall_hit shortRay_dist)

lemma roughScene_shade:
  "\<exists>c. getColor 2 roughScene shortRay
     = Some (c, roughScene\<lparr>objects := [roughBall\<lparr>mat := (mat roughBall)\<lparr>roughness := 1\<rparr>\<rparr>]\<rparr>)"
proof -
  define s' where "s' = roughScene\<lparr>objects := [roughBall\<lparr>mat := (mat roughBall)\<lparr>roughness := 1\<rparr>\<rparr>]\<rparr>"
  from roughBall_reflect obtain outgoing weights where
    refl: "reflect roughBall shortRay \<lparr>x = 0, y = 0, z = 1\<rparr>
       = ((outgoing, weights, \<lparr>cR = 0, cG = 255, cB = 0, cA = 255\<rparr>),
          roughBall\<lparr>mat := (mat roughBall)\<lparr>roughness := 1\<rparr>\<rparr>)"
    and ne: "outgoing \<noteq> []"
    by blast
  have "\<forall>ray\<in>set outgoing. intersect (roughBall\<lparr>mat := (mat roughBall)\<lparr>roughness := 1\<rparr>\<rparr>) ray = None"
  proof
    fix ray assume "ray \<in> set outgoing"
    with reflect_sources[OF refl] have "src ray = \<lparr>x = 0, y = 0, z = 1\<rparr>" by simp
    then show "intersect (roughBall\<lparr>mat := (mat roughBall)\<lparr>roughness := 1\<rparr>\<rparr>) ray = None"
      by (intro surface_ray_misses) (simp add: roughBall_def point_to_def norm2_def)
  qed
  then have "\<forall>ray\<in>set outgoing. \<forall>b\<in>set (objects s'). intersect b ray = None"
    by (simp add: s'_def)
  from accumulate_all_miss[OF this reflect_lengths[OF refl], of 0 "\<lparr>cR = 0, cG = 255, cB = 0, cA = 255\<rparr>" "(0, 0, 0, 0)"]
  obtain acc' where acc: "accumulate 1 s' \<lparr>cR = 0, cG = 255, cB = 0, cA = 255\<rparr> outgoing weights (0, 0, 0, 0) = Some (acc', s')"
    by auto
  have "getColor (Suc 1) roughScene shortRay = shadeHit 1 roughScene shortRay (nat 0) \<lparr>x = 0, y = 0, z = 1\<rparr>"
    by (rule getColor_hit[OF roughScene_nearest]) simp
  also have "\<dots> = Some (blend \<lparr>cR = 0, cG = 255, cB = 0, cA = 255\<rparr> acc', s')"
    using refl ne acc by (simp add: shadeHit_def roughScene_def s'_def)
  finally show ?thesis
    by (auto simp: s'_def numeral_2_eq_2)
qed

text \<open>
  The sphere \<open>roughBall\<close> has roughness 2; shading \<open>shortRay\<close> in \<open>roughScene\<close> with fuel
  2 returns the scene with that roughness set to 1.
\<close>

theorem reflect_only_clamps_witness:
  "snd (reflect roughBall shortRay \<lparr>x = 0, y = 0, z = 1\<rparr>)
     = roughBall\<lparr>mat := (mat roughBall)\<lparr>roughness := 1\<rparr>\<rparr>
   \<and> (\<exists>c. getColor 2 roughScene shortRay
     = Some (c, roughScene\<lparr>objects := [roughBall\<lparr>mat := (mat roughBall)\<lparr>roughness := 1\<rparr>\<rparr>]\<rparr>))
   \<and> sceneClamped roughScene
        (roughScene\<lparr>objects := [roughBall\<lparr>mat := (mat roughBall)\<lparr>roughness := 1\<rparr>\<rparr>]\<rparr>)"
proof -
  from roughScene_shade obtain c where
    g: "getColor 2 roughScene shortRay
     = Some (c, roughScene\<lparr>objects := [roughBall\<lparr>mat := (mat roughBall)\<lparr>roughness := 1\<rparr>\<rparr>]\<rparr>)"
    by blast
  have r: "\<not> luminous (mat roughBall) \<and> 1 < roughness (mat roughBall)"
    by (simp add: roughBall_def)
  from reflect_only_clamps[of roughBall shortRay "\<lparr>x = 0, y = 0, z = 1\<rparr>" 2 roughScene shortRay c
      "roughScene\<lparr>objects := [roughBall\<lparr>mat := (mat roughBall)\<lparr>roughness := 1\<rparr>\<rparr>]\<rparr>"] g r
  show ?thesis by simp
qed

section \<open>The weighted average\<close>






























end
